theory Spec2Isabelle
  imports Complex_Main
begin

section \<open>Mirror: quadrant mirroring with smooth transitions (src/unnamed/part_000)\<close>

text \<open>
  JavaScript numbers are modelled as exact rationals: every value the quadrant map and the
  index format hold is a small integer, and the weights of a transition are sums and
  quotients of such integers. Where the source would leave the finite numbers (a division
  by a zero \<open>transitionDuration\<close>) or leave the four-element vector (an array write at
  a key that is not one of 0..3) the model stops with an error value instead of going on
  with a value HOL makes up. The rounding of a double is not modelled, and neither is its
  overflow: a quotient by a \<open>transitionDuration\<close> so small that a double would be
  infinite is a large rational here.
\<close>

datatype mirror_error = NonFinite | OutsideVector

record MirrorDirs =
  topToBottom :: bool
  bottomToTop :: bool
  leftToRight :: bool
  rightToLeft :: bool

record MirrorOpts = MirrorDirs +
  onBeatRandom :: bool
  smoothTransition :: bool
  transitionDuration :: rat

definition defaultOptions :: MirrorOpts where
  "defaultOptions =
     \<lparr>topToBottom = True, bottomToTop = False, leftToRight = False, rightToLeft = False,
      onBeatRandom = False, smoothTransition = False, transitionDuration = 4\<rparr>"

record Mirror =
  opts :: MirrorOpts
  animFrameCount :: rat
  map_quad :: "nat list"
  mix :: "rat list list"
  mixDelta :: "rat list list"

text \<open>Lines 99 and 110-121 of \<open>_setQuadrantMap\<close>: the four overwrites, in the source's order.\<close>

definition quadrantMap :: "'a MirrorDirs_scheme \<Rightarrow> nat list" where
  "quadrantMap mirrorDirs =
     (let m0 = [0, 1, 2, 3];
          m1 = (if topToBottom mirrorDirs
                then (let a = m0[2 := m0 ! 0] in a[3 := a ! 1]) else m0);
          m2 = (if bottomToTop mirrorDirs
                then (let a = m1[0 := m1 ! 2] in a[1 := a ! 3]) else m1);
          m3 = (if leftToRight mirrorDirs
                then (let a = m2[1 := m2 ! 0] in a[3 := a ! 2]) else m2);
          m4 = (if rightToLeft mirrorDirs
                then (let a = m3[0 := m3 ! 1] in a[2 := a ! 3]) else m3)
      in m4)"

text \<open>Lines 102-108: the directions of the random path, each option gated by one bit.\<close>

definition randomDirs :: "nat \<Rightarrow> MirrorOpts \<Rightarrow> MirrorDirs" where
  "randomDirs randVal os =
     \<lparr>topToBottom = (and randVal 1 \<noteq> 0 \<and> topToBottom os),
      bottomToTop = (and randVal 2 \<noteq> 0 \<and> bottomToTop os),
      leftToRight = (and randVal 4 \<noteq> 0 \<and> leftToRight os),
      rightToLeft = (and randVal 8 \<noteq> 0 \<and> rightToLeft os)\<rparr>"

text \<open>
  Lines 133-135: \<open>quad = mix[i][0]; mix[i][0] = 0; mix[i][quad] = 1\<close>. The second write
  stays inside the vector exactly when \<open>quad\<close> is one of 0, 1, 2, 3.
\<close>

definition oneHotRow :: "rat list \<Rightarrow> mirror_error + rat list" where
  "oneHotRow row =
     (let quad = row ! 0; row1 = row[0 := 0]
      in if quad = 0 \<or> quad = 1 \<or> quad = 2 \<or> quad = 3
         then Inr (row1[nat \<lfloor>quad\<rfloor> := 1])
         else Inl OutsideVector)"

fun sequence_rows :: "(mirror_error + 'a) list \<Rightarrow> mirror_error + 'a list" where
  "sequence_rows [] = Inr []"
| "sequence_rows (x # xs) =
     (case x of
        Inl e \<Rightarrow> Inl e
      | Inr r \<Rightarrow> (case sequence_rows xs of Inl e \<Rightarrow> Inl e | Inr rs \<Rightarrow> Inr (r # rs)))"

text \<open>
  \<open>_setMix\<close> (lines 127-157). The loops at 140-145 and 150-155 assign every entry of the
  4 x 4 arrays, so the arrays they leave are written as comprehensions over the loop
  indices.
\<close>

definition Mirror_setMix :: "bool \<Rightarrow> Mirror \<Rightarrow> mirror_error + Mirror" where
  "Mirror_setMix noTransition st =
     (if smoothTransition (opts st) \<and> \<not> noTransition then
        (case (if animFrameCount st = 0
               then sequence_rows (map (\<lambda>i. oneHotRow (mix st ! i)) [0..<4])
               else Inr (mix st)) of
           Inl e \<Rightarrow> Inl e
         | Inr mx \<Rightarrow>
             if transitionDuration (opts st) = 0 then Inl NonFinite
             else Inr (st\<lparr>mix := mx,
                          mixDelta :=
                            map (\<lambda>i. map (\<lambda>j. ((if j = map_quad st ! i then 1 else 0) - mx ! i ! j)
                                                 / transitionDuration (opts st)) [0..<4]) [0..<4],
                          animFrameCount := transitionDuration (opts st)\<rparr>))
      else Inr (st\<lparr>mix := map (\<lambda>i. [of_nat (map_quad st ! i), 0, 0, 0]) [0..<4]\<rparr>))"

definition Mirror_setQuadrantMap :: "bool \<Rightarrow> nat \<Rightarrow> Mirror \<Rightarrow> mirror_error + Mirror" where
  "Mirror_setQuadrantMap random randVal st =
     (let m = (if random then quadrantMap (randomDirs randVal (opts st))
               else quadrantMap (opts st))
      in Mirror_setMix False (st\<lparr>map_quad := m\<rparr>))"

definition Mirror_updateMap :: "Mirror \<Rightarrow> mirror_error + Mirror" where
  "Mirror_updateMap st = Mirror_setQuadrantMap False 0 st"

definition Mirror_inTransition :: "Mirror \<Rightarrow> bool" where
  "Mirror_inTransition st = (smoothTransition (opts st) \<and> animFrameCount st \<noteq> 0)"

definition Mirror_init :: "MirrorOpts \<Rightarrow> mirror_error + Mirror" where
  "Mirror_init os =
     Mirror_updateMap
       \<lparr>opts = os, animFrameCount = 0, map_quad = [],
        mix = [[0, 0, 0, 0], [1, 0, 0, 0], [2, 0, 0, 0], [3, 0, 0, 0]],
        mixDelta = [[0, 0, 0, 0], [0, 0, 0, 0], [0, 0, 0, 0], [0, 0, 0, 0]]\<rparr>"

text \<open>
  \<open>draw\<close> (lines 69-88); \<open>beat\<close> is \<open>main.analyser.beat\<close> and \<open>randVal\<close> the value
  \<open>Math.floor(Math.random()*16)\<close> would draw. \<open>Mirror_uniforms\<close> is what line 74 hands
  to the shader program: the mode flag and the four mix vectors.
\<close>

definition Mirror_beatStep :: "bool \<Rightarrow> nat \<Rightarrow> Mirror \<Rightarrow> mirror_error + Mirror" where
  "Mirror_beatStep beat randVal st =
     (if onBeatRandom (opts st) \<and> beat then Mirror_setQuadrantMap True randVal st else Inr st)"

definition Mirror_uniforms :: "bool \<Rightarrow> nat \<Rightarrow> Mirror \<Rightarrow> mirror_error + bool \<times> rat list list" where
  "Mirror_uniforms beat randVal st =
     (case Mirror_beatStep beat randVal st of
        Inl e \<Rightarrow> Inl e
      | Inr st1 \<Rightarrow> Inr (Mirror_inTransition st1, mix st1))"

definition Mirror_draw :: "bool \<Rightarrow> nat \<Rightarrow> Mirror \<Rightarrow> mirror_error + Mirror" where
  "Mirror_draw beat randVal st =
     (case Mirror_beatStep beat randVal st of
        Inl e \<Rightarrow> Inl e
      | Inr st1 \<Rightarrow>
          if Mirror_inTransition st1 then
            (let st2 = st1\<lparr>animFrameCount := animFrameCount st1 - 1\<rparr>
             in if animFrameCount st2 = 0 then Mirror_setMix True st2
                else Inr (st2\<lparr>mix := map (\<lambda>i. map (\<lambda>j. mix st2 ! i ! j + mixDelta st2 ! i ! j)
                                                   [0..<4]) [0..<4]\<rparr>))
          else Inr st1)"

text \<open>The four direction options, in the order of \<open>MirrorDirs\<close> (lines 7-12).\<close>

datatype direction = TopToBottom | BottomToTop | LeftToRight | RightToLeft

fun setDirection :: "direction \<Rightarrow> bool \<Rightarrow> MirrorOpts \<Rightarrow> MirrorOpts" where
  "setDirection TopToBottom v os = os\<lparr>topToBottom := v\<rparr>"
| "setDirection BottomToTop v os = os\<lparr>bottomToTop := v\<rparr>"
| "setDirection LeftToRight v os = os\<lparr>leftToRight := v\<rparr>"
| "setDirection RightToLeft v os = os\<lparr>rightToLeft := v\<rparr>"

text \<open>
  Modelled from the spec: \<open>Component\<close>, the base class that assigns options, is not under
  src/. The spec (4.1) says that assigning an option triggers the update handler declared for
  it before the next draw; \<open>optUpdateHandlers\<close> (lines 24-29) declares \<open>updateMap\<close> for the
  four direction options and for no other option.
\<close>

definition Mirror_setOption :: "direction \<Rightarrow> bool \<Rightarrow> Mirror \<Rightarrow> mirror_error + Mirror" where
  "Mirror_setOption dir v st = Mirror_updateMap (st\<lparr>opts := setDirection dir v (opts st)\<rparr>)"

text \<open>The life of a Mirror after \<open>init\<close>: draw ticks and direction changes, in any order.\<close>

datatype mirror_event = Draw bool nat | SetOption direction bool

fun Mirror_step :: "mirror_event \<Rightarrow> Mirror \<Rightarrow> mirror_error + Mirror" where
  "Mirror_step (Draw beat randVal) st = Mirror_draw beat randVal st"
| "Mirror_step (SetOption dir v) st = Mirror_setOption dir v st"

fun Mirror_run :: "mirror_event list \<Rightarrow> Mirror \<Rightarrow> mirror_error + Mirror" where
  "Mirror_run [] st = Inr st"
| "Mirror_run (e # es) st =
     (case Mirror_step e st of Inl err \<Rightarrow> Inl err | Inr st' \<Rightarrow> Mirror_run es st')"

subsection \<open>Assigning the other options while the Mirror runs\<close>

text \<open>
  Modelled from the spec: assigning one of the three options that are no directions. The
  spec (4.1) lets an option be assigned while the preset runs and has the assignment trigger
  the update handler declared for that option; \<open>optUpdateHandlers\<close> (lines 24-29) declares
  none for \<open>onBeatRandom\<close>, \<open>smoothTransition\<close> and \<open>transitionDuration\<close>, so the
  assignment stores the value and nothing else happens before the next draw.
\<close>

datatype mirror_option = OnBeatRandom bool | SmoothTransition bool | TransitionDuration rat

fun assignOption :: "mirror_option \<Rightarrow> MirrorOpts \<Rightarrow> MirrorOpts" where
  "assignOption (OnBeatRandom v) os = os\<lparr>onBeatRandom := v\<rparr>"
| "assignOption (SmoothTransition v) os = os\<lparr>smoothTransition := v\<rparr>"
| "assignOption (TransitionDuration d) os = os\<lparr>transitionDuration := d\<rparr>"

definition Mirror_assign :: "mirror_option \<Rightarrow> Mirror \<Rightarrow> Mirror" where
  "Mirror_assign opt st = st\<lparr>opts := assignOption opt (opts st)\<rparr>"

text \<open>A session: draw ticks and direction changes as before, and assignments between them.\<close>

datatype mirror_action = Ev mirror_event | Assign mirror_option

fun Mirror_act :: "mirror_action \<Rightarrow> Mirror \<Rightarrow> mirror_error + Mirror" where
  "Mirror_act (Ev e) st = Mirror_step e st"
| "Mirror_act (Assign opt) st = Inr (Mirror_assign opt st)"

fun Mirror_session :: "mirror_action list \<Rightarrow> Mirror \<Rightarrow> mirror_error + Mirror" where
  "Mirror_session [] st = Inr st"
| "Mirror_session (a # as) st =
     (case Mirror_act a st of Inl err \<Rightarrow> Inl err | Inr st' \<Rightarrow> Mirror_session as st')"

text \<open>
  The sessions in which the weights are kept: \<open>smoothTransition\<close> is switched off only
  while no transition is pending, and a \<open>transitionDuration\<close> that is assigned is positive.
\<close>

fun Mirror_allowed :: "mirror_action \<Rightarrow> Mirror \<Rightarrow> bool" where
  "Mirror_allowed (Assign (SmoothTransition v)) st = (v \<or> animFrameCount st = 0)"
| "Mirror_allowed (Assign (TransitionDuration d)) st = (0 < d)"
| "Mirror_allowed a st = True"

fun Mirror_guarded :: "mirror_action list \<Rightarrow> Mirror \<Rightarrow> bool" where
  "Mirror_guarded [] st = True"
| "Mirror_guarded (a # as) st =
     (Mirror_allowed a st \<and>
      (case Mirror_act a st of Inl err \<Rightarrow> True | Inr st' \<Rightarrow> Mirror_guarded as st'))"

text \<open>
  The fragment shader's \<open>main\<close> (lines 198-221) for one of the colour channels r, g, b of
  one fragment: \<open>c q\<close> is that channel of \<open>getMirrorColor(v_position, quadrant, q)\<close>,
  \<open>mixv\<close> the mix vector of the fragment's quadrant, and \<open>u_mode\<close> is 1 exactly in a
  transition (line 227). GLSL's \<open>int(x)\<close> drops the fraction.
\<close>

definition glsl_int :: "rat \<Rightarrow> int" where
  "glsl_int x = (if 0 \<le> x then \<lfloor>x\<rfloor> else \<lceil>x\<rceil>)"

definition MirrorProgram_main :: "bool \<Rightarrow> rat list \<Rightarrow> (int \<Rightarrow> rat) \<Rightarrow> rat" where
  "MirrorProgram_main transition mixv c =
     (if \<not> transition then c (glsl_int (mixv ! 0))
      else c 0 * mixv ! 0 + c 1 * mixv ! 1 + c 2 * mixv ! 2 + c 3 * mixv ! 3)"

subsection \<open>The two formats of a mix vector, and the quadrant map as the spec words it\<close>

text \<open>Index format: the source quadrant in the first entry (lines 150-155).\<close>

definition indexRow :: "nat \<Rightarrow> rat list" where
  "indexRow q = [of_nat q, 0, 0, 0]"

text \<open>The one-hot vector of a quadrant: \<open>endValue\<close> of line 142 for each \<open>j\<close>.\<close>

definition oneHot :: "nat \<Rightarrow> rat list" where
  "oneHot q = map (\<lambda>j. if j = q then 1 else 0) [0..<4]"

definition deltas :: "nat list \<Rightarrow> rat list list \<Rightarrow> rat \<Rightarrow> rat list list" where
  "deltas m mx d =
     map (\<lambda>i. map (\<lambda>j. ((if j = m ! i then 1 else 0) - mx ! i ! j) / d) [0..<4]) [0..<4]"

text \<open>
  The spec's wording of the quadrant map (4.6): start from the identity and apply, in the
  fixed order topToBottom, bottomToTop, leftToRight, rightToLeft, one overwrite of a pair
  of quadrant indices by another pair for each enabled direction. Quadrants 0 and 1 are
  the top row, 2 and 3 the bottom row; 0 and 2 the left column, 1 and 3 the right one
  (lines 174-179).
\<close>

fun overwritePair :: "direction \<Rightarrow> nat list \<Rightarrow> nat list" where
  "overwritePair TopToBottom m = m[2 := m ! 0, 3 := m ! 1]"
| "overwritePair BottomToTop m = m[0 := m ! 2, 1 := m ! 3]"
| "overwritePair LeftToRight m = m[1 := m ! 0, 3 := m ! 2]"
| "overwritePair RightToLeft m = m[0 := m ! 1, 2 := m ! 3]"

definition enabledDirections :: "bool \<Rightarrow> bool \<Rightarrow> bool \<Rightarrow> bool \<Rightarrow> direction list" where
  "enabledDirections t b l r =
     map fst (filter snd [(TopToBottom, t), (BottomToTop, b), (LeftToRight, l), (RightToLeft, r)])"

definition spec_quadrantMap :: "bool \<Rightarrow> bool \<Rightarrow> bool \<Rightarrow> bool \<Rightarrow> nat list" where
  "spec_quadrantMap t b l r =
     foldl (\<lambda>m dir. overwritePair dir m) [0, 1, 2, 3] (enabledDirections t b l r)"

subsection \<open>The invariant of a Mirror\<close>

definition shape4 :: "'a list list \<Rightarrow> bool" where
  "shape4 xs = (length xs = 4 \<and> (\<forall>i<4. length (xs ! i) = 4))"

text \<open>
  The quadrant map holds four quadrant ids; with no transition pending every mix vector is
  in index format; with one pending the weights of each quadrant sum to 1 and its deltas
  to 0.
\<close>

definition Mirror_inv :: "Mirror \<Rightarrow> bool" where
  "Mirror_inv st =
     (length (map_quad st) = 4 \<and> (\<forall>i<4. map_quad st ! i < 4) \<and> shape4 (mix st) \<and>
      (if animFrameCount st = 0
       then (\<forall>i<4. \<exists>q<4. mix st ! i = indexRow q)
       else smoothTransition (opts st) \<and> transitionDuration (opts st) \<noteq> 0 \<and>
            shape4 (mixDelta st) \<and>
            (\<forall>i<4. sum_list (mix st ! i) = 1 \<and> sum_list (mixDelta st ! i) = 0)))"

text \<open>
  What an operation may return from a state that satisfies the invariant: a state that
  satisfies it again, with the options other than the directions unchanged, or
  \<open>NonFinite\<close>, and that only for a zero \<open>transitionDuration\<close>.
\<close>

definition Mirror_good :: "MirrorOpts \<Rightarrow> mirror_error + Mirror \<Rightarrow> bool" where
  "Mirror_good os r =
     (case r of
        Inl e \<Rightarrow> e = NonFinite \<and> transitionDuration os = 0
      | Inr st \<Rightarrow> Mirror_inv st \<and> transitionDuration (opts st) = transitionDuration os \<and>
                 smoothTransition (opts st) = smoothTransition os \<and>
                 onBeatRandom (opts st) = onBeatRandom os)"

text \<open>A duration that is a whole number of ticks; the durations a session assigns.\<close>

definition whole :: "rat \<Rightarrow> bool" where
  "whole x = (x = of_int \<lfloor>x\<rfloor>)"

fun wholeDurations :: "mirror_action list \<Rightarrow> bool" where
  "wholeDurations [] = True"
| "wholeDurations (Assign (TransitionDuration d) # as) = (whole d \<and> wholeDurations as)"
| "wholeDurations (a # as) = wholeDurations as"

text \<open>
  With whole durations the count of the ticks left is a whole number, and while a
  transition is pending every weight lies between 0 and 1, as does the value it is heading
  for: the weight plus the deltas of the ticks left.
\<close>

definition Mirror_bounded :: "Mirror \<Rightarrow> bool" where
  "Mirror_bounded st =
     (whole (animFrameCount st) \<and> 0 \<le> animFrameCount st \<and>
      whole (transitionDuration (opts st)) \<and>
      (animFrameCount st \<noteq> 0 \<longrightarrow>
         (\<forall>i<4. \<forall>j<4. 0 \<le> mix st ! i ! j \<and> mix st ! i ! j \<le> 1 \<and>
            0 \<le> mix st ! i ! j + animFrameCount st * mixDelta st ! i ! j \<and>
            mix st ! i ! j + animFrameCount st * mixDelta st ! i ! j \<le> 1)))"

text \<open>The state \<open>k\<close> draw ticks into a transition that started in \<open>st1\<close>.\<close>

definition Mirror_transitionState :: "Mirror \<Rightarrow> nat \<Rightarrow> Mirror" where
  "Mirror_transitionState st1 k =
     st1\<lparr>animFrameCount := animFrameCount st1 - of_nat k,
         mix := map (\<lambda>i. map (\<lambda>j. mix st1 ! i ! j + of_nat k * mixDelta st1 ! i ! j) [0..<4]) [0..<4]\<rparr>"

subsection \<open>Example states\<close>

definition Mirror_example :: Mirror where
  "Mirror_example =
     \<lparr>opts = defaultOptions\<lparr>smoothTransition := True\<rparr>, animFrameCount = 0,
      map_quad = [0, 1, 0, 1],
      mix = [[0, 0, 0, 0], [1, 0, 0, 0], [0, 0, 0, 0], [1, 0, 0, 0]],
      mixDelta = [[0, 0, 0, 0], [0, 0, 0, 0], [0, 0, 0, 0], [0, 0, 0, 0]]\<rparr>"

definition Mirror_example_opts :: MirrorOpts where
  "Mirror_example_opts =
     defaultOptions\<lparr>smoothTransition := True, onBeatRandom := True, transitionDuration := 2\<rparr>"

definition Mirror_example_start :: Mirror where
  "Mirror_example_start =
     \<lparr>opts = Mirror_example_opts, animFrameCount = 2, map_quad = [0, 1, 0, 1],
      mix = [[1, 0, 0, 0], [0, 1, 0, 0], [0, 0, 1, 0], [0, 0, 0, 1]],
      mixDelta = [[0, 0, 0, 0], [0, 0, 0, 0], [1 / 2, 0, - (1 / 2), 0], [0, 1 / 2, 0, - (1 / 2)]]\<rparr>"

section \<open>Main: presets, the frame loop and the resource gate (src/unnamed/part_001, part_002)\<close>

subsection \<open>JavaScript values\<close>

text \<open>
  A JavaScript object is an association list in insertion order; a missing property reads
  as \<open>undefined\<close>.
\<close>

datatype jsvalue =
  JUndefined | JNull | JBool bool | JNum int | JStr string
  | JArr "jsvalue list" | JObj "(string \<times> jsvalue) list"

type_synonym jsobject = "(string \<times> jsvalue) list"

text \<open>\<open>obj[k] = v\<close>: an existing property keeps its place, a new one goes last.\<close>

fun assign :: "string \<Rightarrow> jsvalue \<Rightarrow> jsobject \<Rightarrow> jsobject" where
  "assign k v [] = [(k, v)]"
| "assign k v ((k', v') # kvs) =
     (if k' = k then (k, v) # kvs else (k', v') # assign k v kvs)"

text \<open>\<open>obj.k\<close>.\<close>

definition property :: "jsobject \<Rightarrow> string \<Rightarrow> jsvalue" where
  "property obj k = (case map_of obj k of None \<Rightarrow> JUndefined | Some v \<Rightarrow> v)"

text \<open>lodash's \<open>_.pick(obj, k1, k2, ...)\<close>: the named properties that \<open>obj\<close> has.\<close>

definition pick :: "jsobject \<Rightarrow> string list \<Rightarrow> jsobject" where
  "pick obj ks = List.map_filter (\<lambda>k. map_option (Pair k) (map_of obj k)) ks"

datatype main_error =
  TypeError | CouldntGetWebglContext | ConfigError string | OutsideModel | NotPending

subsection \<open>Collaborators that are not under src/\<close>

text \<open>
  Modelled from the spec: \<open>ResourceManager\<close> is not under src/. The spec knows it as the
  ResourceGate, an external readiness signal (2, 4.7), and as the holder of the preset's
  \<open>resources.uris: map<key,url>\<close> (3, 6), which the serialised preset carries. The model
  keeps the readiness flag \<open>Main\<close> reads and the uri map; \<open>clear\<close>, \<open>registerUri\<close> and
  \<open>toJSON\<close> are the three calls \<open>Main\<close> makes (lines 233, 235, 305).
\<close>

record ResourceManager =
  ready :: bool
  uris :: jsobject
  pack_prefix :: string

definition ResourceManager_clear :: "string list \<Rightarrow> ResourceManager \<Rightarrow> ResourceManager" where
  "ResourceManager_clear keys rm = rm\<lparr>uris := filter (\<lambda>kv. fst kv \<notin> set keys) (uris rm)\<rparr>"

definition ResourceManager_registerUri :: "jsobject \<Rightarrow> ResourceManager \<Rightarrow> ResourceManager" where
  "ResourceManager_registerUri u rm = rm\<lparr>uris := foldl (\<lambda>acc kv. assign (fst kv) (snd kv) acc) (uris rm) u\<rparr>"

definition ResourceManager_toJSON :: "ResourceManager \<Rightarrow> jsvalue" where
  "ResourceManager_toJSON rm = JObj [(''uris'', JObj (uris rm))]"

text \<open>
  Modelled from the spec: \<open>EffectList\<close> and \<open>Component\<close> are not under src/. The spec (4.1, 8)
  asks that \<open>toConfig()\<close> of a built tree reproduce the configuration it was built from; the
  model's tree is that configuration. What drawing the tree does to the registers is an
  argument of the frame (\<open>Main_drawFrame\<close> below).
\<close>

datatype component = EffectList jsobject

fun Component_toJSON :: "component \<Rightarrow> jsobject" where
  "Component_toJSON (EffectList config) = config"

subsection \<open>The state of a Main and of its host\<close>

text \<open>
  The two frame schedulers a Main can call: the window's \<open>requestAnimationFrame\<close> and
  \<open>cancelAnimationFrame\<close>, and the pair the options may supply.
\<close>

datatype scheduler = Window | Custom

type_synonym buffer = nat

type_synonym registers = "string \<Rightarrow> rat option"

text \<open>
  The fields of the class (lines 107-148), then the host: the frames requested and not yet
  fired or cancelled, the next request id, the clock, and whether the canvas yields a
  WebGL context. \<open>buffers\<close> is \<open>None\<close> while the field is \<open>undefined\<close>, \<open>rootComponent\<close>
  and \<open>rsrcMan\<close> are \<open>None\<close> when \<open>null\<close>. \<open>rctx\<close> counts the rendering contexts built
  (\<open>copier\<close> and \<open>tempBuffers\<close> are rebuilt with it), \<open>emitted\<close> lists the events the Main
  has emitted, and \<open>contextHandlers\<close> says that the two canvas listeners are registered.
\<close>

record Main =
  isStarted :: bool
  stats :: bool
  meta :: jsvalue
  rootComponent :: "component option"
  animReqId :: "nat option"
  buffers :: "(string \<Rightarrow> buffer option) option"
  requestAnimationFrame :: scheduler
  cancelAnimationFrame :: scheduler
  presetResourceKeys :: "string list"
  registerBank :: registers
  bootTime :: nat
  rsrcMan :: "ResourceManager option"
  componentRegistry :: "string list"
  rctx :: nat
  emitted :: "string list"
  contextHandlers :: bool
  pendingFrames :: "(scheduler \<times> nat) set"
  nextFrameId :: nat
  clock :: nat
  webgl :: bool

text \<open>
  Modelled from the spec: building a tree (4.1, 7). One node is instantiated per
  configuration entry by looking up its \<open>type\<close> in the registry, an EffectList entry with
  its \<open>components\<close> in turn, and an unknown type fails with a ConfigError that names it.
  \<open>unknownTypes reg v\<close> lists the types on which building the entry \<open>v\<close> fails; an
  entry that is no object, has no type, or has \<open>components\<close> that are no array is
  malformed and is listed by what is wrong with it. What each type requires of its options
  is declared in the component classes, which are not under src/, and is not checked here.
\<close>

function unknownTypes :: "string list \<Rightarrow> jsvalue \<Rightarrow> string list" where
  "unknownTypes reg (JObj kvs) =
     (case map_of kvs ''type'' of
        Some (JStr t) \<Rightarrow>
          if t \<notin> set reg then [t]
          else if t = ''EffectList'' then
            (case map_of kvs ''components'' of
               None \<Rightarrow> []
             | Some (JArr cs) \<Rightarrow> concat (map (unknownTypes reg) cs)
             | Some _ \<Rightarrow> [''components''])
          else []
      | _ \<Rightarrow> [''type''])"
| "unknownTypes reg JUndefined = [''component'']"
| "unknownTypes reg JNull = [''component'']"
| "unknownTypes reg (JBool b) = [''component'']"
| "unknownTypes reg (JNum n) = [''component'']"
| "unknownTypes reg (JStr x) = [''component'']"
| "unknownTypes reg (JArr xs) = [''component'']"
  by pat_completeness auto
termination
proof (relation "measure (\<lambda>p. size (snd p))")
  show "wf (measure (\<lambda>p. size (snd p)))" by simp
next
  fix reg :: "string list" and kvs x2 x5 x2a x6 and z :: jsvalue
  assume a: "map_of kvs ''components'' = Some x2a" "x2a = JArr x6" "z \<in> set x6"
  have "size v < Suc (size_list (size_prod (\<lambda>_. 0) size) kvs')"
    if "map_of kvs' k = Some v" for kvs' :: jsobject and k v
    using that by (induction kvs') (auto split: if_splits)
  from this [OF a(1)] a(2) have "size (JArr x6) < Suc (size_list (size_prod (\<lambda>_. 0) size) kvs)"
    by simp
  moreover from a(3) have "size z < size (JArr x6)"
    by (simp add: less_Suc_eq_le size_list_estimation')
  ultimately have "size z < size (JArr x6)"
      "size (JArr x6) < Suc (size_list (size_prod (\<lambda>_. 0) size) kvs)"
    by simp_all
  then show "((reg, z), reg, JObj kvs) \<in> measure (\<lambda>p. size (snd p))"
    by simp
qed

text \<open>
  \<open>new EffectList(this, null, preset)\<close> (line 413): the constructor receives the Main as it
  is at that moment, reads its component registry (lines 350-374), and builds the root,
  an EffectList whatever its configuration says of its type, from its \<open>components\<close>.
\<close>

definition rootUnknownTypes :: "string list \<Rightarrow> jsobject \<Rightarrow> string list" where
  "rootUnknownTypes reg preset =
     (case map_of preset ''components'' of
        None \<Rightarrow> []
      | Some (JArr cs) \<Rightarrow> concat (map (unknownTypes reg) cs)
      | Some _ \<Rightarrow> [''components''])"

definition EffectList_new :: "Main \<Rightarrow> jsobject \<Rightarrow> main_error + component" where
  "EffectList_new main preset =
     (case rootUnknownTypes (componentRegistry main) preset of
        [] \<Rightarrow> Inr (EffectList preset)
      | t # ts \<Rightarrow> Inl (ConfigError t))"

text \<open>The host's frame queue.\<close>

definition requestFrame :: "scheduler \<Rightarrow> Main \<Rightarrow> nat \<times> Main" where
  "requestFrame sch s =
     (nextFrameId s,
      s\<lparr>pendingFrames := insert (sch, nextFrameId s) (pendingFrames s),
        nextFrameId := nextFrameId s + 1\<rparr>)"

definition cancelFrame :: "scheduler \<Rightarrow> nat option \<Rightarrow> Main \<Rightarrow> Main" where
  "cancelFrame sch reqId s =
     (case reqId of
        None \<Rightarrow> s
      | Some rid \<Rightarrow> s\<lparr>pendingFrames := pendingFrames s - {(sch, rid)}\<rparr>)"

subsection \<open>The constructors\<close>

text \<open>
  \<open>IMainOpts\<close> (lines 39-66). Of the canvas the model keeps whether it yields a WebGL
  context; the analyser is read by the components only. For the two callbacks it keeps
  whether the options supply them.
\<close>

record IMainOpts =
  canvas_webgl :: bool
  showStat :: "bool option"
  resourcePrefix :: "string option"
  opt_requestAnimationFrame :: bool
  opt_cancelAnimationFrame :: bool

definition Main_initComponentRegistry :: "string list" where
  "Main_initComponentRegistry =
     [''EffectList'', ''ClearScreen'', ''MovingParticle'', ''Picture'', ''SuperScope'', ''Texer'',
      ''ChannelShift'', ''ColorClip'', ''ColorMap'', ''Convolution'', ''DynamicMovement'',
      ''FadeOut'', ''Invert'', ''Mirror'', ''Mosaic'', ''UniqueTone'', ''BufferSave'', ''GlobalVar'']"

text \<open>
  \<open>_initResourceManager\<close> (lines 376-385): the builtin pack with the prefix of the options
  (empty when the pack's own prefix stands).
  Modelled from the spec: the state of a new \<open>ResourceManager\<close> (not under src/); it has
  loaded nothing and waits for nothing, so it is ready and holds no uris.
\<close>

definition Main_initResourceManager :: "string \<Rightarrow> ResourceManager" where
  "Main_initResourceManager p = \<lparr>ready = True, uris = [], pack_prefix = p\<rparr>"

text \<open>\<open>_initGl\<close> (lines 400-408).\<close>

definition Main_initGl :: "Main \<Rightarrow> main_error + Main" where
  "Main_initGl s = (if webgl s then Inr (s\<lparr>rctx := rctx s + 1\<rparr>) else Inl CouldntGetWebglContext)"

text \<open>\<open>_setupRoot\<close> (lines 410-414), statement by statement.\<close>

definition Main_setupRoot :: "jsobject \<Rightarrow> Main \<Rightarrow> main_error + Main" where
  "Main_setupRoot preset s =
     (let s1 = s\<lparr>registerBank := Map.empty\<rparr>;
          s2 = s1\<lparr>bootTime := clock s1\<rparr>
      in case EffectList_new s2 preset of
           Inl e \<Rightarrow> Inl e
         | Inr tree \<Rightarrow> Inr (s2\<lparr>rootComponent := Some tree\<rparr>))"

text \<open>
  What both constructors do but for the choice of the two callbacks (part_001 lines 154-186,
  part_002 lines 69-96); \<open>now\<close> is the clock of the page.
\<close>

definition Main_construct :: "scheduler \<Rightarrow> scheduler \<Rightarrow> IMainOpts \<Rightarrow> nat \<Rightarrow> main_error + Main" where
  "Main_construct raf caf options now =
     (case Main_initGl
        \<lparr>isStarted = False,
         stats = (showStat options = Some True),
         meta = JObj [],
         rootComponent = None,
         animReqId = None,
         buffers = None,
         requestAnimationFrame = raf,
         cancelAnimationFrame = caf,
         presetResourceKeys = [],
         registerBank = Map.empty,
         bootTime = 0,
         rsrcMan = Some (Main_initResourceManager
                          (case resourcePrefix options of None \<Rightarrow> '''' | Some p \<Rightarrow> p)),
         componentRegistry = Main_initComponentRegistry,
         rctx = 0,
         emitted = [],
         contextHandlers = True,
         pendingFrames = {},
         nextFrameId = 0,
         clock = now,
         webgl = canvas_webgl options\<rparr> of
        Inl e \<Rightarrow> Inl e
      | Inr s \<Rightarrow> Main_setupRoot [(''id'', JStr ''root'')] s)"

text \<open>part_001, lines 163-169: the custom callbacks are taken only as a pair.\<close>

definition Main1_constructor :: "IMainOpts \<Rightarrow> nat \<Rightarrow> main_error + Main" where
  "Main1_constructor options now =
     (if opt_requestAnimationFrame options \<and> opt_cancelAnimationFrame options
      then Main_construct Custom Custom options now
      else Main_construct Window Window options now)"

text \<open>part_002, lines 78-79: each callback falls back to the window's on its own.\<close>

definition Main2_constructor :: "IMainOpts \<Rightarrow> nat \<Rightarrow> main_error + Main" where
  "Main2_constructor options now =
     Main_construct (if opt_requestAnimationFrame options then Custom else Window)
                    (if opt_cancelAnimationFrame options then Custom else Window) options now"

subsection \<open>The methods\<close>

text \<open>
  From here on the two files hold the same statements (part_001 lines 193-437, part_002
  lines 99-305); they differ in comments and in the visibility of \<open>setAttribute\<close>,
  \<open>handleRsrcWait\<close> and \<open>handleRsrcReady\<close>. One definition stands for both.
\<close>

definition Main_startAnimation :: "Main \<Rightarrow> Main" where
  "Main_startAnimation s =
     (case requestFrame (requestAnimationFrame s) s of (rid, s1) \<Rightarrow> s1\<lparr>animReqId := Some rid\<rparr>)"

definition Main_stopAnimation :: "Main \<Rightarrow> Main" where
  "Main_stopAnimation s = cancelFrame (cancelAnimationFrame s) (animReqId s) s"

definition Main_start :: "Main \<Rightarrow> main_error + Main" where
  "Main_start s =
     (if isStarted s then Inr s
      else (let s1 = s\<lparr>isStarted := True\<rparr>
            in case rsrcMan s1 of
                 None \<Rightarrow> Inl TypeError
               | Some rm \<Rightarrow> Inr (if ready rm then Main_startAnimation s1 else s1)))"

definition Main_stop :: "Main \<Rightarrow> main_error + Main" where
  "Main_stop s =
     (if \<not> isStarted s then Inr s
      else (let s1 = s\<lparr>isStarted := False\<rparr>
            in case rsrcMan s1 of
                 None \<Rightarrow> Inl TypeError
               | Some rm \<Rightarrow> Inr (if ready rm then Main_stopAnimation s1 else s1)))"

text \<open>
  The block "setup resources" of \<open>loadPreset\<close> (lines 232-239): the manager and the
  preset's resource keys it leaves. \<open>in\<close> throws on a primitive; what the absent
  \<open>registerUri\<close> does with a \<open>uris\<close> that is not an object is outside the model.
\<close>

definition Main_setupResources ::
    "jsobject \<Rightarrow> string list \<Rightarrow> ResourceManager \<Rightarrow> main_error + ResourceManager \<times> string list" where
  "Main_setupResources preset keys rm =
     (let rm1 = ResourceManager_clear keys rm in
      case map_of preset ''resources'' of
        None \<Rightarrow> Inr (rm1, [])
      | Some (JObj r) \<Rightarrow>
          (case map_of r ''uris'' of
             None \<Rightarrow> Inr (rm1, [])
           | Some (JObj u) \<Rightarrow> Inr (ResourceManager_registerUri u rm1, map fst u)
           | Some _ \<Rightarrow> Inl OutsideModel)
      | Some (JArr _) \<Rightarrow> Inr (rm1, [])
      | Some _ \<Rightarrow> Inl TypeError)"

text \<open>\<open>loadPreset\<close> (lines 227-245).\<close>

definition Main_loadPreset :: "jsobject \<Rightarrow> Main \<Rightarrow> main_error + Main" where
  "Main_loadPreset preset0 s =
     (let preset = assign ''id'' (JStr ''root'') preset0 in
      case rootComponent s of
        None \<Rightarrow> Inl TypeError
      | Some tree \<Rightarrow>
         (case rsrcMan s of
            None \<Rightarrow> Inl TypeError
          | Some rm \<Rightarrow>
             (case Main_setupResources preset (presetResourceKeys s) rm of
                Inl e \<Rightarrow> Inl e
              | Inr (rm1, keys) \<Rightarrow>
                  Main_setupRoot preset
                    (s\<lparr>rsrcMan := Some rm1, presetResourceKeys := keys,
                       meta := property preset ''meta''\<rparr>))))"

definition Main_resetCanvas :: "Main \<Rightarrow> main_error + Main" where
  "Main_resetCanvas s =
     (case rootComponent s of
        None \<Rightarrow> Inl TypeError
      | Some tree \<Rightarrow>
         (let preset = Component_toJSON tree in
          case Main_initGl s of
            Inl e \<Rightarrow> Inl e
          | Inr s1 \<Rightarrow> Main_setupRoot preset s1))"

definition Main_notifyResize :: "Main \<Rightarrow> main_error + Main" where
  "Main_notifyResize s = Inr (s\<lparr>emitted := emitted s @ [''resize'']\<rparr>)"

definition Main_cacheBuffer :: "string \<Rightarrow> buffer \<Rightarrow> Main \<Rightarrow> main_error + Main" where
  "Main_cacheBuffer name b s =
     (case buffers s of
        None \<Rightarrow> Inl TypeError
      | Some m \<Rightarrow> Inr (s\<lparr>buffers := Some (m(name \<mapsto> b))\<rparr>))"

definition Main_getBuffer :: "string \<Rightarrow> Main \<Rightarrow> main_error + buffer option" where
  "Main_getBuffer name s =
     (case buffers s of
        None \<Rightarrow> Inl TypeError
      | Some m \<Rightarrow> Inr (m name))"

definition Main_get :: "string \<Rightarrow> Main \<Rightarrow> jsvalue" where
  "Main_get key s = (if key = ''meta'' then meta s else JUndefined)"

definition Main_toJSON :: "Main \<Rightarrow> main_error + jsobject" where
  "Main_toJSON s =
     (case rootComponent s of
        None \<Rightarrow> Inl TypeError
      | Some tree \<Rightarrow>
         (let preset = pick (Component_toJSON tree) [''clearFrame'', ''components''] in
          case rsrcMan s of
            None \<Rightarrow> Inl TypeError
          | Some rm \<Rightarrow>
              Inr (assign ''meta'' (meta s)
                    (assign ''resources'' (ResourceManager_toJSON rm) preset))))"

definition Main_destroy :: "Main \<Rightarrow> main_error + Main" where
  "Main_destroy s =
     (case Main_stop s of
        Inl e \<Rightarrow> Inl e
      | Inr s1 \<Rightarrow>
         (case rootComponent s1 of
            None \<Rightarrow> Inl TypeError
          | Some tree \<Rightarrow>
              Inr (s1\<lparr>rootComponent := None, stats := False, rsrcMan := None,
                      contextHandlers := False\<rparr>)))"

definition Main_setAttribute :: "string \<Rightarrow> jsvalue \<Rightarrow> Main \<Rightarrow> bool \<times> Main" where
  "Main_setAttribute key v s = (if key = ''meta'' then (True, s\<lparr>meta := v\<rparr>) else (False, s))"

definition Main_handleRsrcWait :: "Main \<Rightarrow> Main" where
  "Main_handleRsrcWait s = (if isStarted s then Main_stopAnimation s else s)"

definition Main_handleRsrcReady :: "Main \<Rightarrow> Main" where
  "Main_handleRsrcReady s = (if isStarted s then Main_startAnimation s else s)"

text \<open>
  \<open>drawFrame\<close> (lines 417-421, with or without the stats wrapper of 424-431): the host
  fires the pending request \<open>rid\<close> of scheduler \<open>sch\<close>; the root is drawn, which does
  \<open>draw\<close> to the registers, and the next frame is requested. A request that is not pending
  is never fired.
\<close>

definition Main_drawFrame :: "scheduler \<Rightarrow> nat \<Rightarrow> (registers \<Rightarrow> registers) \<Rightarrow> Main \<Rightarrow> main_error + Main" where
  "Main_drawFrame sch rid draw s =
     (if (sch, rid) \<notin> pendingFrames s then Inl NotPending
      else (let s1 = s\<lparr>pendingFrames := pendingFrames s - {(sch, rid)}\<rparr> in
            case rootComponent s1 of
              None \<Rightarrow> Inl TypeError
            | Some tree \<Rightarrow> Inr (Main_startAnimation (s1\<lparr>registerBank := draw (registerBank s1)\<rparr>))))"

subsection \<open>Events\<close>

text \<open>
  Modelled from the spec: the signals of the absent \<open>ResourceManager\<close>. In the spec's state
  machine (4.7) a not-ready signal comes while the resources are ready and a ready signal
  while waiting; the manager flips its flag and emits the event, which runs the handler
  registered at lines 383-384. A destroyed Main has no manager and listens to nothing.
\<close>

definition Main_rsrcWait :: "Main \<Rightarrow> Main" where
  "Main_rsrcWait s =
     (case rsrcMan s of
        None \<Rightarrow> s
      | Some rm \<Rightarrow>
          if ready rm then Main_handleRsrcWait (s\<lparr>rsrcMan := Some (rm\<lparr>ready := False\<rparr>)\<rparr>) else s)"

definition Main_rsrcReady :: "Main \<Rightarrow> Main" where
  "Main_rsrcReady s =
     (case rsrcMan s of
        None \<Rightarrow> s
      | Some rm \<Rightarrow>
          if \<not> ready rm then Main_handleRsrcReady (s\<lparr>rsrcMan := Some (rm\<lparr>ready := True\<rparr>)\<rparr>) else s)"

text \<open>The canvas listeners of \<open>_registerContextEvents\<close> (lines 387-398).\<close>

definition Main_contextLost :: "Main \<Rightarrow> main_error + Main" where
  "Main_contextLost s = (if contextHandlers s then Main_stop s else Inr s)"

definition Main_contextRestored :: "Main \<Rightarrow> main_error + Main" where
  "Main_contextRestored s = (if contextHandlers s then Main_resetCanvas s else Inr s)"

subsection \<open>Sequences of calls\<close>

datatype call =
  Start | Stop | LoadPreset jsobject | ResetCanvas | NotifyResize
  | CacheBuffer string buffer | GetBuffer string | Get string | SetAttribute string jsvalue
  | ToJSON | Destroy | HandleRsrcWait | HandleRsrcReady
  | RsrcWait | RsrcReady | ContextLost | ContextRestored
  | Frame scheduler nat "registers \<Rightarrow> registers"

datatype result = Void | Value jsvalue | Buffer "buffer option" | Bool bool

definition void :: "main_error + Main \<Rightarrow> main_error + result \<times> Main" where
  "void r = (case r of Inl e \<Rightarrow> Inl e | Inr s \<Rightarrow> Inr (Void, s))"

fun Main_call :: "call \<Rightarrow> Main \<Rightarrow> main_error + result \<times> Main" where
  "Main_call Start s = void (Main_start s)"
| "Main_call Stop s = void (Main_stop s)"
| "Main_call (LoadPreset p) s = void (Main_loadPreset p s)"
| "Main_call ResetCanvas s = void (Main_resetCanvas s)"
| "Main_call NotifyResize s = void (Main_notifyResize s)"
| "Main_call (CacheBuffer name b) s = void (Main_cacheBuffer name b s)"
| "Main_call (GetBuffer name) s =
     (case Main_getBuffer name s of Inl e \<Rightarrow> Inl e | Inr b \<Rightarrow> Inr (Buffer b, s))"
| "Main_call (Get key) s = Inr (Value (Main_get key s), s)"
| "Main_call (SetAttribute key v) s =
     (case Main_setAttribute key v s of (b, s1) \<Rightarrow> Inr (Bool b, s1))"
| "Main_call ToJSON s =
     (case Main_toJSON s of Inl e \<Rightarrow> Inl e | Inr j \<Rightarrow> Inr (Value (JObj j), s))"
| "Main_call Destroy s = void (Main_destroy s)"
| "Main_call HandleRsrcWait s = Inr (Void, Main_handleRsrcWait s)"
| "Main_call HandleRsrcReady s = Inr (Void, Main_handleRsrcReady s)"
| "Main_call RsrcWait s = Inr (Void, Main_rsrcWait s)"
| "Main_call RsrcReady s = Inr (Void, Main_rsrcReady s)"
| "Main_call ContextLost s = void (Main_contextLost s)"
| "Main_call ContextRestored s = void (Main_contextRestored s)"
| "Main_call (Frame sch rid draw) s = void (Main_drawFrame sch rid draw s)"

text \<open>A sequence of calls stops at the first exception; the results are listed in order.\<close>

fun Main_run :: "call list \<Rightarrow> Main \<Rightarrow> main_error + result list \<times> Main" where
  "Main_run [] s = Inr ([], s)"
| "Main_run (c # cs) s =
     (case Main_call c s of
        Inl e \<Rightarrow> Inl e
      | Inr (r, s1) \<Rightarrow>
          (case Main_run cs s1 of Inl e \<Rightarrow> Inl e | Inr (rs, s2) \<Rightarrow> Inr (r # rs, s2)))"

text \<open>The calls a client of part_001 can make: its two handlers are private there.\<close>

fun part001_call :: "call \<Rightarrow> bool" where
  "part001_call HandleRsrcWait = False"
| "part001_call HandleRsrcReady = False"
| "part001_call c = True"

subsection \<open>The scheduler's states\<close>

definition Main_ready :: "Main \<Rightarrow> bool" where
  "Main_ready s = (case rsrcMan s of None \<Rightarrow> False | Some rm \<Rightarrow> ready rm)"

text \<open>
  Tick scheduling is running: exactly one frame is pending, the one \<open>animReqId\<close> names, on
  the scheduler the Main requests frames from.
\<close>

definition Main_ticking :: "Main \<Rightarrow> bool" where
  "Main_ticking s =
     (animReqId s \<noteq> None \<and>
      pendingFrames s = {(requestAnimationFrame s, the (animReqId s))})"

text \<open>The root of a Main is a tree that building its configuration yields.\<close>

definition Main_root_inv :: "Main \<Rightarrow> bool" where
  "Main_root_inv s =
     (\<forall>tree. rootComponent s = Some tree \<longrightarrow>
        rootUnknownTypes (componentRegistry s) (Component_toJSON tree) = [])"

text \<open>
  The invariant of part_001's frame loop: the callbacks are a pair, a frame is pending
  exactly in the state Running-Active (started and ready), and a live Main has its root
  and its resource manager.
\<close>

definition Main_frames_inv :: "Main \<Rightarrow> bool" where
  "Main_frames_inv s =
     (requestAnimationFrame s = cancelAnimationFrame s \<and>
      (if isStarted s \<and> Main_ready s then Main_ticking s else pendingFrames s = {}) \<and>
      (rootComponent s = None) = (rsrcMan s = None) \<and>
      (rsrcMan s = None \<longrightarrow> \<not> isStarted s))"

subsection \<open>Sessions, and what a call does to the registers\<close>

text \<open>A session with either file: construct a Main from the options, then make the calls.\<close>

definition Main1_session :: "IMainOpts \<Rightarrow> nat \<Rightarrow> call list \<Rightarrow> main_error + result list \<times> Main" where
  "Main1_session options now cs =
     (case Main1_constructor options now of Inl e \<Rightarrow> Inl e | Inr s \<Rightarrow> Main_run cs s)"

definition Main2_session :: "IMainOpts \<Rightarrow> nat \<Rightarrow> call list \<Rightarrow> main_error + result list \<times> Main" where
  "Main2_session options now cs =
     (case Main2_constructor options now of Inl e \<Rightarrow> Inl e | Inr s \<Rightarrow> Main_run cs s)"

text \<open>
  The calls that go through \<open>_setupRoot\<close>: \<open>loadPreset\<close>, \<open>resetCanvas\<close>, and the
  context-restored event while its listener is registered.
\<close>

fun resets_registers :: "call \<Rightarrow> Main \<Rightarrow> bool" where
  "resets_registers (LoadPreset p) s = True"
| "resets_registers ResetCanvas s = True"
| "resets_registers ContextRestored s = contextHandlers s"
| "resets_registers c s = False"

text \<open>
  The register bank a call leaves when it returns: a frame leaves what drawing made of the
  bank, a call through \<open>_setupRoot\<close> the empty bank, any other call the bank it found.
\<close>

fun registers_after :: "call \<Rightarrow> Main \<Rightarrow> registers" where
  "registers_after (Frame sch rid d) s = d (registerBank s)"
| "registers_after c s = (if resets_registers c s then Map.empty else registerBank s)"

subsection \<open>Example states of a Main\<close>

text \<open>
  Options with no custom callback, the Main either constructor builds from them at time 0,
  that Main after \<open>start()\<close>, and after a context loss and restore that follow.
\<close>

definition Main_example_opts :: IMainOpts where
  "Main_example_opts =
     \<lparr>canvas_webgl = True, showStat = None, resourcePrefix = None,
      opt_requestAnimationFrame = False, opt_cancelAnimationFrame = False\<rparr>"

definition Main_example :: Main where
  "Main_example =
     \<lparr>isStarted = False, stats = False, meta = JObj [],
      rootComponent = Some (EffectList [(''id'', JStr ''root'')]),
      animReqId = None, buffers = None,
      requestAnimationFrame = Window, cancelAnimationFrame = Window,
      presetResourceKeys = [], registerBank = Map.empty, bootTime = 0,
      rsrcMan = Some \<lparr>ready = True, uris = [], pack_prefix = ''''\<rparr>,
      componentRegistry = Main_initComponentRegistry, rctx = 1, emitted = [],
      contextHandlers = True, pendingFrames = {}, nextFrameId = 0, clock = 0, webgl = True\<rparr>"

definition Main_example_running :: Main where
  "Main_example_running =
     Main_example\<lparr>isStarted := True, animReqId := Some 0, pendingFrames := {(Window, 0)},
                  nextFrameId := 1\<rparr>"

definition Main_example_restored :: Main where
  "Main_example_restored =
     Main_example\<lparr>animReqId := Some 0, nextFrameId := 1, rctx := 2\<rparr>"

text \<open>Options that supply a custom \<open>requestAnimationFrame\<close> and no \<open>cancelAnimationFrame\<close>.\<close>

definition Main_example_opts_raf_only :: IMainOpts where
  "Main_example_opts_raf_only = Main_example_opts\<lparr>opt_requestAnimationFrame := True\<rparr>"


section \<open>Properties of Mirror\<close>

subsection \<open>Lists of length four\<close>

lemma upt4: "[0..<4] = [0, 1, 2, 3]"
  by (simp add: upt_rec)

lemma len4_expand: "length (r::'a list) = 4 \<Longrightarrow> r = [r ! 0, r ! 1, r ! 2, r ! 3]"
  by (cases r; cases "tl r"; cases "tl (tl r)"; cases "tl (tl (tl r))";
      cases "tl (tl (tl (tl r)))")
     (auto simp: numeral_eq_Suc)

lemma lt4_cases: "(q::nat) < 4 \<Longrightarrow> q = 0 \<or> q = 1 \<or> q = 2 \<or> q = 3"
  by arith

lemma all_lt4: "(\<forall>i<4. P (i::nat)) = (P 0 \<and> P 1 \<and> P 2 \<and> P 3)"
proof
  assume "\<forall>i<4. P i" then show "P 0 \<and> P 1 \<and> P 2 \<and> P 3" by simp
next
  assume a: "P 0 \<and> P 1 \<and> P 2 \<and> P 3"
  show "\<forall>i<4. P i"
  proof (intro allI impI)
    fix i :: nat assume "i < 4"
    then have "i = 0 \<or> i = 1 \<or> i = 2 \<or> i = 3" by arith
    with a show "P i" by auto
  qed
qed

subsection \<open>The steps of \<open>_setMix\<close>\<close>

lemma oneHotRow_index: "q < 4 \<Longrightarrow> oneHotRow (indexRow q) = Inr (oneHot q)"
  by (auto dest!: lt4_cases simp: oneHotRow_def indexRow_def oneHot_def upt4)

lemma sum_oneHot: "q < 4 \<Longrightarrow> sum_list (oneHot q) = 1"
  by (auto dest!: lt4_cases simp: oneHot_def upt4)

lemma oneHot_nth: "j < 4 \<Longrightarrow> oneHot q ! j = (if j = q then 1 else 0)"
  by (auto dest!: lt4_cases simp: oneHot_def upt4)

lemma quadrantMap_range: "length (quadrantMap d) = 4 \<and> (\<forall>i<4. quadrantMap d ! i < 4)"
  by (simp add: quadrantMap_def Let_def all_lt4)

lemma delta_sum:
  assumes "length r = 4" "sum_list r = 1" "t < 4"
  shows "sum_list (map (\<lambda>j. ((if j = t then 1 else 0) - r ! j) / (d::rat)) [0..<4]) = 0"
proof -
  obtain a b c e where r: "r = [a, b, c, e]"
    using len4_expand [OF assms(1)] by blast
  from assms(2) r have s: "a + b + c + e = 1" by simp
  have "((if 0 = t then 1 else 0) - a) + ((if 1 = t then 1 else 0) - b)
        + ((if 2 = t then 1 else 0) - c) + ((if 3 = t then 1 else 0) - e) = (0::rat)"
    using lt4_cases [OF assms(3)] s by auto
  then have "(((if 0 = t then 1 else 0) - a) + ((if 1 = t then 1 else 0) - b)
        + ((if 2 = t then 1 else 0) - c) + ((if 3 = t then 1 else 0) - e)) / d = 0"
    by simp
  then show ?thesis
    by (simp add: r upt4 add_divide_distrib)
qed

lemma setMix_index:
  "\<not> (smoothTransition (opts st) \<and> \<not> noT) \<Longrightarrow>
   Mirror_setMix noT st = Inr (st\<lparr>mix := map (\<lambda>i. indexRow (map_quad st ! i)) [0..<4]\<rparr>)"
  by (cases "smoothTransition (opts st)"; cases noT) (simp_all add: Mirror_setMix_def indexRow_def)

lemma index_inv:
  assumes "length (map_quad st) = 4" "\<forall>i<4. map_quad st ! i < 4" "animFrameCount st = 0"
  shows "Mirror_inv (st\<lparr>mix := map (\<lambda>i. indexRow (map_quad st ! i)) [0..<4]\<rparr>)"
  using assms by (simp add: Mirror_inv_def shape4_def upt4 all_lt4 indexRow_def)

lemma convert_rows:
  assumes "\<forall>i<4. \<exists>q<4. mx ! i = indexRow q"
  shows "\<exists>rows. sequence_rows (map (\<lambda>i. oneHotRow (mx ! i)) [0..<4]) = Inr rows \<and>
           shape4 rows \<and> (\<forall>i<4. sum_list (rows ! i) = 1)"
proof -
  from assms obtain q0 q1 q2 q3 where
    q: "q0 < 4" "mx ! 0 = indexRow q0" "q1 < 4" "mx ! 1 = indexRow q1"
       "q2 < 4" "mx ! 2 = indexRow q2" "q3 < 4" "mx ! 3 = indexRow q3"
    unfolding all_lt4 by blast
  have "sequence_rows (map (\<lambda>i. oneHotRow (mx ! i)) [0..<4])
          = Inr [oneHot q0, oneHot q1, oneHot q2, oneHot q3]"
    using q by (simp add: upt4 oneHotRow_index)
  moreover have "shape4 [oneHot q0, oneHot q1, oneHot q2, oneHot q3]"
    by (simp add: shape4_def all_lt4 oneHot_def)
  moreover have "\<forall>i<4. sum_list ([oneHot q0, oneHot q1, oneHot q2, oneHot q3] ! i) = 1"
    using q by (simp add: all_lt4 sum_oneHot)
  ultimately show ?thesis by blast
qed

lemma deltas_ok:
  assumes "shape4 mx" "\<forall>i<4. sum_list (mx ! i) = 1" "\<forall>i<4. m ! i < 4"
  shows "shape4 (deltas m mx d) \<and> (\<forall>i<4. sum_list (deltas m mx d ! i) = 0)"
proof -
  have sh: "shape4 (deltas m mx d)"
    by (simp add: shape4_def deltas_def)
  have "sum_list (deltas m mx d ! i) = 0" if "i < 4" for i
  proof -
    have "deltas m mx d ! i = map (\<lambda>j. ((if j = m ! i then 1 else 0) - mx ! i ! j) / d) [0..<4]"
      using that by (simp add: deltas_def)
    moreover have "length (mx ! i) = 4" "sum_list (mx ! i) = 1" "m ! i < 4"
      using assms that by (auto simp: shape4_def)
    ultimately show ?thesis by (simp add: delta_sum)
  qed
  with sh show ?thesis by blast
qed

lemma setMix_smooth:
  assumes "smoothTransition (opts st)" "Mirror_inv st"
  shows "(transitionDuration (opts st) = 0 \<and> Mirror_setMix False st = Inl NonFinite) \<or>
         (transitionDuration (opts st) \<noteq> 0 \<and>
          (\<exists>mx. Mirror_setMix False st =
                  Inr (st\<lparr>mix := mx, mixDelta := deltas (map_quad st) mx (transitionDuration (opts st)),
                          animFrameCount := transitionDuration (opts st)\<rparr>) \<and>
                shape4 mx \<and> (\<forall>i<4. sum_list (mx ! i) = 1)))"
proof (cases "animFrameCount st = 0")
  case True
  with assms(2) have "\<forall>i<4. \<exists>q<4. mix st ! i = indexRow q"
    by (simp add: Mirror_inv_def)
  from convert_rows [OF this] obtain rows where
    r: "sequence_rows (map (\<lambda>i. oneHotRow (mix st ! i)) [0..<4]) = Inr rows"
       "shape4 rows" "\<forall>i<4. sum_list (rows ! i) = 1" by blast
  show ?thesis
    using assms(1) True r by (auto simp: Mirror_setMix_def deltas_def)
next
  case False
  with assms(2) have "shape4 (mix st)" "\<forall>i<4. sum_list (mix st ! i) = 1"
    by (simp_all add: Mirror_inv_def)
  moreover have "Mirror_setMix False st =
      (if transitionDuration (opts st) = 0 then Inl NonFinite
       else Inr (st\<lparr>mix := mix st,
                    mixDelta := deltas (map_quad st) (mix st) (transitionDuration (opts st)),
                    animFrameCount := transitionDuration (opts st)\<rparr>))"
    using assms(1) False by (simp add: Mirror_setMix_def deltas_def)
  ultimately show ?thesis
    by (cases "transitionDuration (opts st) = 0") (auto intro!: exI [of _ "mix st"])
qed

subsection \<open>Every operation keeps the invariant\<close>

lemma inv_count: "Mirror_inv st \<Longrightarrow> \<not> smoothTransition (opts st) \<Longrightarrow> animFrameCount st = 0"
  by (auto simp: Mirror_inv_def split: if_splits)

lemma setMix_good:
  assumes "Mirror_inv st"
  shows "Mirror_good (opts st) (Mirror_setMix False st)"
proof (cases "smoothTransition (opts st)")
  case True
  from setMix_smooth [OF True assms] show ?thesis
  proof
    assume "transitionDuration (opts st) = 0 \<and> Mirror_setMix False st = Inl NonFinite"
    then show ?thesis by (simp add: Mirror_good_def)
  next
    assume a: "transitionDuration (opts st) \<noteq> 0 \<and>
      (\<exists>mx. Mirror_setMix False st =
              Inr (st\<lparr>mix := mx, mixDelta := deltas (map_quad st) mx (transitionDuration (opts st)),
                      animFrameCount := transitionDuration (opts st)\<rparr>) \<and>
            shape4 mx \<and> (\<forall>i<4. sum_list (mx ! i) = 1))"
    then obtain mx where mx:
      "Mirror_setMix False st =
         Inr (st\<lparr>mix := mx, mixDelta := deltas (map_quad st) mx (transitionDuration (opts st)),
                 animFrameCount := transitionDuration (opts st)\<rparr>)"
      "shape4 mx" "\<forall>i<4. sum_list (mx ! i) = 1" by blast
    have m: "length (map_quad st) = 4" "\<forall>i<4. map_quad st ! i < 4"
      using assms by (simp_all add: Mirror_inv_def)
    from deltas_ok [OF mx(2) mx(3) m(2)]
    have d: "shape4 (deltas (map_quad st) mx (transitionDuration (opts st)))"
            "\<forall>i<4. sum_list (deltas (map_quad st) mx (transitionDuration (opts st)) ! i) = 0"
      by blast+
    show ?thesis
      using a True m mx d by (simp add: Mirror_good_def Mirror_inv_def)
  qed
next
  case False
  have c: "animFrameCount st = 0" using inv_count [OF assms False] .
  have m: "length (map_quad st) = 4" "\<forall>i<4. map_quad st ! i < 4"
    using assms by (simp_all add: Mirror_inv_def)
  have "Mirror_setMix False st = Inr (st\<lparr>mix := map (\<lambda>i. indexRow (map_quad st ! i)) [0..<4]\<rparr>)"
    using False by (simp add: setMix_index)
  then show ?thesis
    using index_inv [OF m c] by (simp add: Mirror_good_def)
qed

lemma inv_map_update:
  assumes "Mirror_inv st" "length m = 4" "\<forall>i<4. m ! i < 4"
  shows "Mirror_inv (st\<lparr>map_quad := m\<rparr>)"
  using assms by (simp add: Mirror_inv_def)

lemma setQuadrantMap_good:
  assumes "Mirror_inv st"
  shows "Mirror_good (opts st) (Mirror_setQuadrantMap random randVal st)"
proof -
  define m where "m = (if random then quadrantMap (randomDirs randVal (opts st))
                       else quadrantMap (opts st))"
  have "length m = 4" "\<forall>i<4. m ! i < 4"
    using quadrantMap_range [of "randomDirs randVal (opts st)"] quadrantMap_range [of "opts st"]
    by (simp_all add: m_def)
  then have "Mirror_inv (st\<lparr>map_quad := m\<rparr>)"
    using assms by (simp add: inv_map_update)
  from setMix_good [OF this] show ?thesis
    by (simp add: Mirror_setQuadrantMap_def m_def Let_def)
qed

lemma setDirection_keeps:
  "transitionDuration (setDirection dir v os) = transitionDuration os"
  "smoothTransition (setDirection dir v os) = smoothTransition os"
  "onBeatRandom (setDirection dir v os) = onBeatRandom os"
  by (cases dir; simp)+

lemma Mirror_good_cong:
  assumes "transitionDuration os = transitionDuration os'"
          "smoothTransition os = smoothTransition os'" "onBeatRandom os = onBeatRandom os'"
  shows "Mirror_good os r = Mirror_good os' r"
  using assms by (simp add: Mirror_good_def split: sum.splits)

lemma inv_opts_update:
  assumes "Mirror_inv st"
  shows "Mirror_inv (st\<lparr>opts := setDirection dir v (opts st)\<rparr>)"
  using assms by (cases dir) (simp_all add: Mirror_inv_def)

lemma setOption_good:
  assumes "Mirror_inv st"
  shows "Mirror_good (opts st) (Mirror_setOption dir v st)"
proof -
  have "Mirror_good (opts (st\<lparr>opts := setDirection dir v (opts st)\<rparr>))
          (Mirror_setQuadrantMap False 0 (st\<lparr>opts := setDirection dir v (opts st)\<rparr>))"
    using inv_opts_update [OF assms] by (rule setQuadrantMap_good)
  moreover have "Mirror_good (opts (st\<lparr>opts := setDirection dir v (opts st)\<rparr>)) r
                 = Mirror_good (opts st) r" for r
    by (rule Mirror_good_cong) (simp_all add: setDirection_keeps)
  ultimately show ?thesis
    by (simp add: Mirror_setOption_def Mirror_updateMap_def)
qed

lemma beatStep_good:
  assumes "Mirror_inv st"
  shows "Mirror_good (opts st) (Mirror_beatStep beat randVal st)"
  using assms setQuadrantMap_good [OF assms]
  by (simp add: Mirror_beatStep_def Mirror_good_def)

lemma add_deltas_inv:
  assumes "Mirror_inv st" "animFrameCount st \<noteq> 0" "animFrameCount st - 1 \<noteq> 0"
  shows "Mirror_inv (st\<lparr>animFrameCount := animFrameCount st - 1,
                        mix := map (\<lambda>i. map (\<lambda>j. mix st ! i ! j + mixDelta st ! i ! j) [0..<4]) [0..<4]\<rparr>)"
proof -
  have s: "\<forall>i<4. sum_list (mix st ! i) = 1 \<and> sum_list (mixDelta st ! i) = 0"
    and sh: "shape4 (mix st)" "shape4 (mixDelta st)"
    using assms(1,2) by (simp_all add: Mirror_inv_def)
  have "sum_list (map (\<lambda>j. mix st ! i ! j + mixDelta st ! i ! j) [0..<4]) = 1" if "i < 4" for i
  proof -
    have l: "length (mix st ! i) = 4" "length (mixDelta st ! i) = 4"
      using sh that by (simp_all add: shape4_def)
    have "sum_list (mix st ! i) = 1" "sum_list (mixDelta st ! i) = 0"
      using s that by simp_all
    then have "mix st ! i ! 0 + mix st ! i ! 1 + mix st ! i ! 2 + mix st ! i ! 3 = 1"
              "mixDelta st ! i ! 0 + mixDelta st ! i ! 1 + mixDelta st ! i ! 2 + mixDelta st ! i ! 3 = 0"
      using len4_expand [OF l(1)] len4_expand [OF l(2)]
      by (metis add.assoc add.right_neutral sum_list.Cons sum_list.Nil)+
    then show ?thesis by (simp add: upt4)
  qed
  then have "\<forall>i<4. sum_list (map (\<lambda>i. map (\<lambda>j. mix st ! i ! j + mixDelta st ! i ! j) [0..<4]) [0..<4] ! i) = 1"
    by simp
  moreover have "shape4 (map (\<lambda>i. map (\<lambda>j. mix st ! i ! j + mixDelta st ! i ! j) [0..<4]) [0..<4])"
    by (simp add: shape4_def)
  ultimately show ?thesis
    using assms by (simp add: Mirror_inv_def)
qed

lemma draw_good:
  assumes "Mirror_inv st"
  shows "Mirror_good (opts st) (Mirror_draw beat randVal st)"
proof (cases "Mirror_beatStep beat randVal st")
  case (Inl e)
  with beatStep_good [OF assms, of beat randVal] show ?thesis
    by (simp add: Mirror_draw_def Mirror_good_def)
next
  case (Inr st1)
  with beatStep_good [OF assms, of beat randVal]
  have g: "Mirror_inv st1" "transitionDuration (opts st1) = transitionDuration (opts st)"
          "smoothTransition (opts st1) = smoothTransition (opts st)"
          "onBeatRandom (opts st1) = onBeatRandom (opts st)"
    by (simp_all add: Mirror_good_def)
  show ?thesis
  proof (cases "Mirror_inTransition st1")
    case False
    then show ?thesis using Inr g by (simp add: Mirror_draw_def Mirror_good_def)
  next
    case True
    then have t: "smoothTransition (opts st1)" "animFrameCount st1 \<noteq> 0"
      by (simp_all add: Mirror_inTransition_def)
    show ?thesis
    proof (cases "animFrameCount st1 - 1 = 0")
      case True
      have m: "length (map_quad st1) = 4" "\<forall>i<4. map_quad st1 ! i < 4"
        using g(1) by (simp_all add: Mirror_inv_def)
      have "Mirror_inv ((st1\<lparr>animFrameCount := animFrameCount st1 - 1\<rparr>)
               \<lparr>mix := map (\<lambda>i. indexRow (map_quad (st1\<lparr>animFrameCount := animFrameCount st1 - 1\<rparr>) ! i)) [0..<4]\<rparr>)"
        by (rule index_inv) (use m True in simp_all)
      then show ?thesis
        using Inr g \<open>Mirror_inTransition st1\<close> True
        by (simp add: Mirror_draw_def Mirror_good_def setMix_index Let_def)
    next
      case False
      from add_deltas_inv [OF g(1) t(2) False] show ?thesis
        using Inr g \<open>Mirror_inTransition st1\<close> False
        by (simp add: Mirror_draw_def Mirror_good_def Let_def)
    qed
  qed
qed

lemma step_good: "Mirror_inv st \<Longrightarrow> Mirror_good (opts st) (Mirror_step e st)"
  by (cases e) (simp_all add: draw_good setOption_good)


lemma init_good: "Mirror_good os (Mirror_init os)"
proof -
  let ?r = "\<lparr>opts = os, animFrameCount = 0, map_quad = [0, 1, 2, 3],
             mix = [[0, 0, 0, 0], [1, 0, 0, 0], [2, 0, 0, 0], [3, 0, 0, 0]],
             mixDelta = [[0, 0, 0, 0], [0, 0, 0, 0], [0, 0, 0, 0], [0, 0, 0, 0]]\<rparr>"
  have "\<exists>q<4. [x, 0, 0, 0] = indexRow q" if "x = of_nat k" "k < 4" for x k
    using that by (auto simp: indexRow_def)
  from this [of 0 0] this [of 1 1] this [of 2 2] this [of 3 3]
  have "Mirror_inv ?r"
    by (simp add: Mirror_inv_def shape4_def all_lt4)
  from setQuadrantMap_good [OF this, of False 0] show ?thesis
    by (simp add: Mirror_init_def Mirror_updateMap_def Mirror_setQuadrantMap_def)
qed

subsection \<open>The quadrant map\<close>

lemma quadrantMap_spec:
  "quadrantMap d = spec_quadrantMap (topToBottom d) (bottomToTop d) (leftToRight d) (rightToLeft d)"
  by (simp add: quadrantMap_def spec_quadrantMap_def enabledDirections_def Let_def)

lemma setMix_keeps:
  "Mirror_setMix b st = Inr st' \<Longrightarrow> map_quad st' = map_quad st \<and> opts st' = opts st"
  by (auto simp: Mirror_setMix_def split: if_splits sum.splits)

text \<open>
  C4. For every setting of the four direction options, the quadrant map that
  \<open>_setQuadrantMap\<close> stores is the identity map [0,1,2,3] after one pair overwrite for each
  enabled direction, applied in the fixed order topToBottom, bottomToTop, leftToRight,
  rightToLeft; on the random path the enabled directions are the options gated by the bits
  of the random value. A later direction can override an earlier one (rightToLeft changes
  entry 2, which topToBottom wrote), and the order matters (topToBottom then bottomToTop
  differs from bottomToTop then topToBottom).
\<close>

theorem Mirror_quadrant_map_fixed_order:
  "quadrantMap d = spec_quadrantMap (topToBottom d) (bottomToTop d) (leftToRight d) (rightToLeft d)
   \<and> (Mirror_setQuadrantMap False randVal st = Inr st' \<longrightarrow>
        map_quad st' = spec_quadrantMap (topToBottom (opts st)) (bottomToTop (opts st))
                         (leftToRight (opts st)) (rightToLeft (opts st)))
   \<and> (Mirror_setQuadrantMap True randVal st = Inr st' \<longrightarrow>
        map_quad st' = spec_quadrantMap (and randVal 1 \<noteq> 0 \<and> topToBottom (opts st))
                         (and randVal 2 \<noteq> 0 \<and> bottomToTop (opts st))
                         (and randVal 4 \<noteq> 0 \<and> leftToRight (opts st))
                         (and randVal 8 \<noteq> 0 \<and> rightToLeft (opts st)))
   \<and> spec_quadrantMap True False False True ! 2 \<noteq> spec_quadrantMap True False False False ! 2
   \<and> overwritePair BottomToTop (overwritePair TopToBottom [0, 1, 2, 3])
       \<noteq> overwritePair TopToBottom (overwritePair BottomToTop [0, 1, 2, 3])"
proof (intro conjI impI)
  show "quadrantMap d = spec_quadrantMap (topToBottom d) (bottomToTop d) (leftToRight d) (rightToLeft d)"
    by (rule quadrantMap_spec)
next
  assume "Mirror_setQuadrantMap False randVal st = Inr st'"
  then have "map_quad st' = quadrantMap (opts st)"
    by (auto simp: Mirror_setQuadrantMap_def dest: setMix_keeps)
  then show "map_quad st' = spec_quadrantMap (topToBottom (opts st)) (bottomToTop (opts st))
                         (leftToRight (opts st)) (rightToLeft (opts st))"
    by (simp add: quadrantMap_spec)
next
  assume "Mirror_setQuadrantMap True randVal st = Inr st'"
  then have "map_quad st' = quadrantMap (randomDirs randVal (opts st))"
    by (auto simp: Mirror_setQuadrantMap_def dest: setMix_keeps)
  then show "map_quad st' = spec_quadrantMap (and randVal 1 \<noteq> 0 \<and> topToBottom (opts st))
                         (and randVal 2 \<noteq> 0 \<and> bottomToTop (opts st))
                         (and randVal 4 \<noteq> 0 \<and> leftToRight (opts st))
                         (and randVal 8 \<noteq> 0 \<and> rightToLeft (opts st))"
    by (simp add: quadrantMap_spec randomDirs_def)
next
  show "spec_quadrantMap True False False True ! 2 \<noteq> spec_quadrantMap True False False False ! 2"
    by (simp add: spec_quadrantMap_def enabledDirections_def)
next
  show "overwritePair BottomToTop (overwritePair TopToBottom [0, 1, 2, 3])
       \<noteq> overwritePair TopToBottom (overwritePair BottomToTop [0, 1, 2, 3])"
    by simp
qed

theorem Mirror_quadrant_map_fixed_order_witness:
  "Mirror_setQuadrantMap True 8 (Mirror_example\<lparr>opts := defaultOptions\<lparr>rightToLeft := True\<rparr>\<rparr>)
     = Inr (Mirror_example\<lparr>opts := defaultOptions\<lparr>rightToLeft := True\<rparr>, map_quad := [1, 1, 3, 3],
              mix := [[1, 0, 0, 0], [1, 0, 0, 0], [3, 0, 0, 0], [3, 0, 0, 0]]\<rparr>)
   \<and> [1, 1, 3, 3] = spec_quadrantMap False False False True
   \<and> Mirror_setQuadrantMap False 8 (Mirror_example\<lparr>opts := defaultOptions\<lparr>rightToLeft := True\<rparr>\<rparr>)
     = Inr (Mirror_example\<lparr>opts := defaultOptions\<lparr>rightToLeft := True\<rparr>, map_quad := [1, 1, 1, 1],
              mix := [[1, 0, 0, 0], [1, 0, 0, 0], [1, 0, 0, 0], [1, 0, 0, 0]]\<rparr>)
   \<and> [1, 1, 1, 1] = spec_quadrantMap True False False True"
proof -
  let ?s = "Mirror_example\<lparr>opts := defaultOptions\<lparr>rightToLeft := True\<rparr>\<rparr>"
  let ?s' = "Mirror_example\<lparr>opts := defaultOptions\<lparr>rightToLeft := True\<rparr>, map_quad := [1, 1, 3, 3],
              mix := [[1, 0, 0, 0], [1, 0, 0, 0], [3, 0, 0, 0], [3, 0, 0, 0]]\<rparr>"
  let ?t' = "Mirror_example\<lparr>opts := defaultOptions\<lparr>rightToLeft := True\<rparr>, map_quad := [1, 1, 1, 1],
              mix := [[1, 0, 0, 0], [1, 0, 0, 0], [1, 0, 0, 0], [1, 0, 0, 0]]\<rparr>"
  have run: "Mirror_setQuadrantMap True 8 ?s = Inr ?s'"
    by (simp add: Mirror_setQuadrantMap_def Mirror_setMix_def Mirror_example_def defaultOptions_def
          quadrantMap_def randomDirs_def upt4 Let_def)
  have run2: "Mirror_setQuadrantMap False 8 ?s = Inr ?t'"
    by (simp add: Mirror_setQuadrantMap_def Mirror_setMix_def Mirror_example_def defaultOptions_def
          quadrantMap_def upt4 Let_def)
  from run Mirror_quadrant_map_fixed_order [of defaultOptions 8 ?s ?s']
  have "map_quad ?s' = spec_quadrantMap (and (8::nat) 1 \<noteq> 0 \<and> topToBottom (opts ?s))
                         (and (8::nat) 2 \<noteq> 0 \<and> bottomToTop (opts ?s))
                         (and (8::nat) 4 \<noteq> 0 \<and> leftToRight (opts ?s))
                         (and (8::nat) 8 \<noteq> 0 \<and> rightToLeft (opts ?s))"
    by blast
  then have a: "[1, 1, 3, 3] = spec_quadrantMap False False False True"
    by (simp add: defaultOptions_def)
  from run2 Mirror_quadrant_map_fixed_order [of defaultOptions 8 ?s ?t']
  have "map_quad ?t' = spec_quadrantMap (topToBottom (opts ?s)) (bottomToTop (opts ?s))
                         (leftToRight (opts ?s)) (rightToLeft (opts ?s))"
    by blast
  then have b: "[1, 1, 1, 1] = spec_quadrantMap True False False True"
    by (simp add: defaultOptions_def)
  from run run2 a b show ?thesis by blast
qed

subsection \<open>Quadrant ids stay in range\<close>



lemma example_init: "Mirror_init Mirror_example_opts = Inr Mirror_example_start"
  by (simp add: Mirror_init_def Mirror_updateMap_def Mirror_setQuadrantMap_def Mirror_setMix_def
        Mirror_example_opts_def Mirror_example_start_def defaultOptions_def quadrantMap_def
        oneHotRow_def upt4 Let_def)




subsection \<open>Sessions with assignments\<close>

lemma assign_inv:
  assumes "Mirror_inv st" "Mirror_allowed (Assign opt) st"
  shows "Mirror_inv (Mirror_assign opt st)"
  using assms by (cases opt) (auto simp: Mirror_inv_def Mirror_assign_def)

lemma assign_duration:
  assumes "0 < transitionDuration (opts st)" "Mirror_allowed (Assign opt) st"
  shows "0 < transitionDuration (opts (Mirror_assign opt st))"
  using assms by (cases opt) (simp_all add: Mirror_assign_def)

lemma good_result:
  assumes "Mirror_good os r" "0 < transitionDuration os"
  shows "\<exists>st'. r = Inr st' \<and> Mirror_inv st' \<and> transitionDuration (opts st') = transitionDuration os"
  using assms by (cases r) (auto simp: Mirror_good_def)

lemma act_good:
  assumes "Mirror_inv st" "0 < transitionDuration (opts st)" "Mirror_allowed a st"
  shows "\<exists>st'. Mirror_act a st = Inr st' \<and> Mirror_inv st' \<and> 0 < transitionDuration (opts st')"
proof (cases a)
  case (Ev e)
  from good_result [OF step_good [OF assms(1), of e] assms(2)] assms(2) Ev
  show ?thesis by auto
next
  case (Assign opt)
  with assms assign_inv [of st opt] assign_duration [of st opt] show ?thesis by simp
qed

lemma session_good:
  "Mirror_inv st \<Longrightarrow> 0 < transitionDuration (opts st) \<Longrightarrow> Mirror_guarded as st \<Longrightarrow>
   \<exists>st'. Mirror_session as st = Inr st' \<and> Mirror_inv st' \<and> 0 < transitionDuration (opts st')"
proof (induction as arbitrary: st)
  case Nil
  then show ?case by simp
next
  case (Cons a as)
  from Cons.prems(3) have al: "Mirror_allowed a st" by simp
  from act_good [OF Cons.prems(1,2) al] obtain st1 where
    s: "Mirror_act a st = Inr st1" "Mirror_inv st1" "0 < transitionDuration (opts st1)" by blast
  with Cons.prems(3) have "Mirror_guarded as st1" by simp
  from Cons.IH [OF s(2,3) this] s(1) show ?case by simp
qed

lemma guarded_events: "Mirror_guarded (map Ev evs) st"
  by (induction evs arbitrary: st) (simp_all split: sum.splits)

lemma session_events: "Mirror_session (map Ev evs) st = Mirror_run evs st"
  by (induction evs arbitrary: st) (simp_all split: sum.splits)

subsection \<open>Whole durations keep the weights between 0 and 1\<close>

lemma whole_0: "whole 0"
  by (simp add: whole_def)

lemma whole_diff1: "whole c \<Longrightarrow> whole (c - 1)"
  by (simp add: whole_def)

lemma whole_ge1:
  assumes "whole c" "0 \<le> c" "c \<noteq> 0"
  shows "1 \<le> c"
proof -
  from assms(2,3) have "0 < c" by simp
  then have "0 < \<lfloor>c\<rfloor>" using assms(1) unfolding whole_def
    by (metis of_int_0_less_iff)
  then have "1 \<le> \<lfloor>c\<rfloor>" by simp
  then have "(1::rat) \<le> of_int \<lfloor>c\<rfloor>" by (metis of_int_1_le_iff)
  with assms(1) show ?thesis by (simp add: whole_def)
qed

lemma tick_bounds:
  fixes c w d :: rat
  assumes "1 \<le> c" "0 \<le> w" "w \<le> 1" "0 \<le> w + c * d" "w + c * d \<le> 1"
  shows "0 \<le> w + d \<and> w + d \<le> 1 \<and> 0 \<le> (w + d) + (c - 1) * d \<and> (w + d) + (c - 1) * d \<le> 1"
proof -
  have e: "(w + d) + (c - 1) * d = w + c * d" by (simp add: algebra_simps)
  have "0 \<le> w + d \<and> w + d \<le> 1"
  proof (cases "0 \<le> d")
    case True
    with assms(1) have "1 * d \<le> c * d" by (intro mult_right_mono) simp_all
    then have "d \<le> c * d" by simp
    with True assms show ?thesis by (intro conjI; linarith)
  next
    case False
    then have "d \<le> 0" by simp
    with assms(1) have "c * d \<le> 1 * d" by (intro mult_right_mono_neg) simp_all
    then have "c * d \<le> d" by simp
    with False assms show ?thesis by (intro conjI; linarith)
  qed
  with e assms(4,5) show ?thesis by simp
qed

lemma bounded_idle:
  assumes "animFrameCount st = 0" "whole (transitionDuration (opts st))"
  shows "Mirror_bounded st"
  using assms by (simp add: Mirror_bounded_def whole_0)

lemma bounded_cong:
  assumes "animFrameCount st' = animFrameCount st" "mix st' = mix st" "mixDelta st' = mixDelta st"
          "transitionDuration (opts st') = transitionDuration (opts st)"
  shows "Mirror_bounded st' = Mirror_bounded st"
  by (simp add: Mirror_bounded_def assms)

lemma convert_rows_oneHot:
  assumes "\<forall>i<4. \<exists>q<4. mx ! i = indexRow q"
  shows "\<exists>rows. sequence_rows (map (\<lambda>i. oneHotRow (mx ! i)) [0..<4]) = Inr rows \<and>
           (\<forall>i<4. \<exists>q<4. rows ! i = oneHot q)"
proof -
  from assms obtain q0 q1 q2 q3 where
    q: "q0 < 4" "mx ! 0 = indexRow q0" "q1 < 4" "mx ! 1 = indexRow q1"
       "q2 < 4" "mx ! 2 = indexRow q2" "q3 < 4" "mx ! 3 = indexRow q3"
    unfolding all_lt4 by blast
  have "sequence_rows (map (\<lambda>i. oneHotRow (mx ! i)) [0..<4])
          = Inr [oneHot q0, oneHot q1, oneHot q2, oneHot q3]"
    using q by (simp add: upt4 oneHotRow_index)
  moreover have "\<forall>i<4. \<exists>q<4. [oneHot q0, oneHot q1, oneHot q2, oneHot q3] ! i = oneHot q"
    using q unfolding all_lt4 by auto
  ultimately show ?thesis by blast
qed

lemma start_bounds:
  fixes w d :: rat
  assumes "0 \<le> w" "w \<le> 1" "d \<noteq> 0"
  shows "0 \<le> w + d * (((if b then 1 else 0) - w) / d) \<and>
         w + d * (((if b then 1 else 0) - w) / d) \<le> 1"
  using assms by simp

lemma setMix_bounded:
  assumes "Mirror_inv st" "Mirror_bounded st" "0 < transitionDuration (opts st)"
      and "Mirror_setMix False st = Inr st'"
  shows "Mirror_bounded st'"
proof (cases "smoothTransition (opts st)")
  case False
  have c: "animFrameCount st = 0" using inv_count [OF assms(1) False] .
  from assms(4) False have "st' = st\<lparr>mix := map (\<lambda>i. indexRow (map_quad st ! i)) [0..<4]\<rparr>"
    by (simp add: setMix_index)
  with c assms(2) show ?thesis by (simp add: Mirror_bounded_def)
next
  case True
  let ?d = "transitionDuration (opts st)"
  from assms(3) have nz: "?d \<noteq> 0" by simp
  have "\<exists>mx. st' = st\<lparr>mix := mx, mixDelta := deltas (map_quad st) mx ?d, animFrameCount := ?d\<rparr> \<and>
             (\<forall>i<4. \<forall>j<4. 0 \<le> mx ! i ! j \<and> mx ! i ! j \<le> 1)"
  proof (cases "animFrameCount st = 0")
    case c: True
    with assms(1) have "\<forall>i<4. \<exists>q<4. mix st ! i = indexRow q"
      by (simp add: Mirror_inv_def)
    from convert_rows_oneHot [OF this] obtain rows where
      r: "sequence_rows (map (\<lambda>i. oneHotRow (mix st ! i)) [0..<4]) = Inr rows"
         "\<forall>i<4. \<exists>q<4. rows ! i = oneHot q" by blast
    from assms(4) True c r(1) nz
    have "st' = st\<lparr>mix := rows, mixDelta := deltas (map_quad st) rows ?d, animFrameCount := ?d\<rparr>"
      by (simp add: Mirror_setMix_def deltas_def)
    moreover have "0 \<le> rows ! i ! j \<and> rows ! i ! j \<le> 1" if "i < 4" "j < 4" for i j
    proof -
      from r(2) that(1) obtain q where "rows ! i = oneHot q" by blast
      with that(2) show ?thesis by (simp add: oneHot_nth)
    qed
    ultimately show ?thesis by blast
  next
    case c: False
    from assms(4) True c nz
    have "st' = st\<lparr>mix := mix st, mixDelta := deltas (map_quad st) (mix st) ?d,
                    animFrameCount := ?d\<rparr>"
      by (simp add: Mirror_setMix_def deltas_def)
    moreover from assms(2) c have "\<forall>i<4. \<forall>j<4. 0 \<le> mix st ! i ! j \<and> mix st ! i ! j \<le> 1"
      by (simp add: Mirror_bounded_def)
    ultimately show ?thesis by blast
  qed
  then obtain mx where
    s: "st' = st\<lparr>mix := mx, mixDelta := deltas (map_quad st) mx ?d, animFrameCount := ?d\<rparr>"
    and b: "\<forall>i<4. \<forall>j<4. 0 \<le> mx ! i ! j \<and> mx ! i ! j \<le> 1" by blast
  have w: "whole ?d" "0 \<le> ?d" using assms(2,3) by (simp_all add: Mirror_bounded_def)
  have "0 \<le> mx ! i ! j \<and> mx ! i ! j \<le> 1 \<and>
        0 \<le> mx ! i ! j + ?d * deltas (map_quad st) mx ?d ! i ! j \<and>
        mx ! i ! j + ?d * deltas (map_quad st) mx ?d ! i ! j \<le> 1" if "i < 4" "j < 4" for i j
  proof -
    from b that have m: "0 \<le> mx ! i ! j" "mx ! i ! j \<le> 1" by simp_all
    have "deltas (map_quad st) mx ?d ! i ! j
            = ((if j = map_quad st ! i then 1 else 0) - mx ! i ! j) / ?d"
      using that by (simp add: deltas_def)
    with m start_bounds [OF m nz, of "j = map_quad st ! i"] show ?thesis by simp
  qed
  with w show ?thesis by (simp add: s Mirror_bounded_def)
qed

lemma setQuadrantMap_bounded:
  assumes "Mirror_inv st" "Mirror_bounded st" "0 < transitionDuration (opts st)"
      and "Mirror_setQuadrantMap random randVal st = Inr st'"
  shows "Mirror_bounded st'"
proof -
  define m where "m = (if random then quadrantMap (randomDirs randVal (opts st))
                       else quadrantMap (opts st))"
  have "length m = 4" "\<forall>i<4. m ! i < 4"
    using quadrantMap_range [of "randomDirs randVal (opts st)"] quadrantMap_range [of "opts st"]
    by (simp_all add: m_def)
  then have i: "Mirror_inv (st\<lparr>map_quad := m\<rparr>)"
    using assms(1) by (simp add: inv_map_update)
  have b: "Mirror_bounded (st\<lparr>map_quad := m\<rparr>)"
    using assms(2) by (simp add: Mirror_bounded_def)
  have d: "0 < transitionDuration (opts (st\<lparr>map_quad := m\<rparr>))" using assms(3) by simp
  from assms(4) have "Mirror_setMix False (st\<lparr>map_quad := m\<rparr>) = Inr st'"
    by (simp add: Mirror_setQuadrantMap_def m_def Let_def)
  with i b d show ?thesis by (rule setMix_bounded)
qed

lemma setOption_bounded:
  assumes "Mirror_inv st" "Mirror_bounded st" "0 < transitionDuration (opts st)"
      and "Mirror_setOption dir v st = Inr st'"
  shows "Mirror_bounded st'"
proof -
  let ?s = "st\<lparr>opts := setDirection dir v (opts st)\<rparr>"
  have i: "Mirror_inv ?s" using assms(1) by (rule inv_opts_update)
  have b: "Mirror_bounded ?s"
    using assms(2) by (simp add: Mirror_bounded_def setDirection_keeps)
  have d: "0 < transitionDuration (opts ?s)" using assms(3) by (simp add: setDirection_keeps)
  from assms(4) have "Mirror_setQuadrantMap False 0 ?s = Inr st'"
    by (simp add: Mirror_setOption_def Mirror_updateMap_def)
  with i b d show ?thesis by (rule setQuadrantMap_bounded)
qed

lemma tick_bounded:
  assumes "Mirror_bounded st" "animFrameCount st \<noteq> 0" "animFrameCount st - 1 \<noteq> 0"
  shows "Mirror_bounded (st\<lparr>animFrameCount := animFrameCount st - 1,
                            mix := map (\<lambda>i. map (\<lambda>j. mix st ! i ! j + mixDelta st ! i ! j) [0..<4]) [0..<4]\<rparr>)"
proof -
  let ?c = "animFrameCount st"
  have w: "whole ?c" "0 \<le> ?c" "whole (transitionDuration (opts st))"
    using assms(1) by (simp_all add: Mirror_bounded_def)
  from whole_ge1 [OF w(1,2) assms(2)] have c1: "1 \<le> ?c" .
  have "0 \<le> mix st ! i ! j + mixDelta st ! i ! j \<and> mix st ! i ! j + mixDelta st ! i ! j \<le> 1 \<and>
        0 \<le> (mix st ! i ! j + mixDelta st ! i ! j) + (?c - 1) * mixDelta st ! i ! j \<and>
        (mix st ! i ! j + mixDelta st ! i ! j) + (?c - 1) * mixDelta st ! i ! j \<le> 1"
    if "i < 4" "j < 4" for i j
  proof -
    from assms(1,2) that have
      "0 \<le> mix st ! i ! j" "mix st ! i ! j \<le> 1"
      "0 \<le> mix st ! i ! j + ?c * mixDelta st ! i ! j"
      "mix st ! i ! j + ?c * mixDelta st ! i ! j \<le> 1"
      by (simp_all add: Mirror_bounded_def)
    with c1 show ?thesis by (intro tick_bounds)
  qed
  with w c1 show ?thesis
    by (simp add: Mirror_bounded_def whole_diff1)
qed

lemma draw_bounded:
  assumes "Mirror_inv st" "Mirror_bounded st" "0 < transitionDuration (opts st)"
      and "Mirror_draw beat randVal st = Inr st'"
  shows "Mirror_bounded st'"
proof -
  from good_result [OF beatStep_good [OF assms(1), of beat randVal] assms(3)] obtain st1 where
    s1: "Mirror_beatStep beat randVal st = Inr st1" "Mirror_inv st1"
        "transitionDuration (opts st1) = transitionDuration (opts st)" by blast
  have b1: "Mirror_bounded st1"
  proof (cases "onBeatRandom (opts st) \<and> beat")
    case True
    with s1(1) have "Mirror_setQuadrantMap True randVal st = Inr st1"
      by (simp add: Mirror_beatStep_def)
    with assms(1,2,3) show ?thesis by (rule setQuadrantMap_bounded)
  next
    case False
    with s1(1) have "st1 = st" by (auto simp: Mirror_beatStep_def)
    with assms(2) show ?thesis by simp
  qed
  show ?thesis
  proof (cases "Mirror_inTransition st1")
    case False
    with assms(4) s1(1) have "st' = st1" by (simp add: Mirror_draw_def)
    with b1 show ?thesis by simp
  next
    case True
    then have t: "animFrameCount st1 \<noteq> 0" by (simp add: Mirror_inTransition_def)
    show ?thesis
    proof (cases "animFrameCount st1 - 1 = 0")
      case z: True
      from assms(4) s1(1) True z
      have "st' = (st1\<lparr>animFrameCount := animFrameCount st1 - 1\<rparr>)
                    \<lparr>mix := map (\<lambda>i. indexRow (map_quad (st1\<lparr>animFrameCount := animFrameCount st1 - 1\<rparr>) ! i)) [0..<4]\<rparr>"
        by (simp add: Mirror_draw_def Let_def setMix_index)
      then have "animFrameCount st' = 0" "transitionDuration (opts st') = transitionDuration (opts st1)"
        using z by simp_all
      with b1 show ?thesis by (intro bounded_idle) (simp_all add: Mirror_bounded_def)
    next
      case z: False
      from assms(4) s1(1) True z
      have "st' = st1\<lparr>animFrameCount := animFrameCount st1 - 1,
                      mix := map (\<lambda>i. map (\<lambda>j. mix st1 ! i ! j + mixDelta st1 ! i ! j) [0..<4]) [0..<4]\<rparr>"
        by (simp add: Mirror_draw_def Let_def)
      with tick_bounded [OF b1 t z] show ?thesis by simp
    qed
  qed
qed

lemma assign_bounded:
  assumes "Mirror_bounded st" "wholeDurations [Assign opt]"
  shows "Mirror_bounded (Mirror_assign opt st)"
  using assms by (cases opt) (simp_all add: Mirror_bounded_def Mirror_assign_def)

lemma wholeDurations_Cons: "wholeDurations (a # as) = (wholeDurations [a] \<and> wholeDurations as)"
proof (cases a)
  case (Ev e)
  then show ?thesis by simp
next
  case (Assign opt)
  then show ?thesis by (cases opt) simp_all
qed

lemma act_bounded:
  assumes "Mirror_inv st" "Mirror_bounded st" "0 < transitionDuration (opts st)"
      and "wholeDurations [a]" "Mirror_act a st = Inr st'"
  shows "Mirror_bounded st'"
proof (cases a)
  case (Ev e)
  show ?thesis
  proof (cases e)
    case (Draw beat randVal)
    with Ev assms(5) have "Mirror_draw beat randVal st = Inr st'" by simp
    with assms(1,2,3) show ?thesis by (rule draw_bounded)
  next
    case (SetOption dir v)
    with Ev assms(5) have "Mirror_setOption dir v st = Inr st'" by simp
    with assms(1,2,3) show ?thesis by (rule setOption_bounded)
  qed
next
  case (Assign opt)
  with assms(2,4,5) assign_bounded [of st opt] show ?thesis by auto
qed

lemma session_bounded:
  "Mirror_inv st \<Longrightarrow> Mirror_bounded st \<Longrightarrow> 0 < transitionDuration (opts st) \<Longrightarrow>
   Mirror_guarded as st \<Longrightarrow> wholeDurations as \<Longrightarrow> Mirror_session as st = Inr st' \<Longrightarrow>
   Mirror_bounded st'"
proof (induction as arbitrary: st)
  case Nil
  then show ?case by simp
next
  case (Cons a as)
  from Cons.prems(4) have al: "Mirror_allowed a st" by simp
  from act_good [OF Cons.prems(1,3) al] obtain st1 where
    s: "Mirror_act a st = Inr st1" "Mirror_inv st1" "0 < transitionDuration (opts st1)" by blast
  from Cons.prems(5) have wd: "wholeDurations [a]" "wholeDurations as"
    using wholeDurations_Cons [of a as] by simp_all
  from act_bounded [OF Cons.prems(1,2,3) wd(1) s(1)] have b1: "Mirror_bounded st1" .
  from Cons.prems(4) s(1) have g1: "Mirror_guarded as st1" by simp
  from Cons.prems(6) s(1) have r1: "Mirror_session as st1 = Inr st'" by simp
  from Cons.IH [OF s(2) b1 s(3) g1 wd(2) r1] show ?case .
qed

lemma init_bounded:
  assumes "whole (transitionDuration os)" "0 < transitionDuration os" "Mirror_init os = Inr st0"
  shows "Mirror_bounded st0"
proof -
  let ?r = "\<lparr>opts = os, animFrameCount = 0, map_quad = [],
             mix = [[0, 0, 0, 0], [1, 0, 0, 0], [2, 0, 0, 0], [3, 0, 0, 0]],
             mixDelta = [[0, 0, 0, 0], [0, 0, 0, 0], [0, 0, 0, 0], [0, 0, 0, 0]]\<rparr>"
  let ?r1 = "?r\<lparr>map_quad := quadrantMap os\<rparr>"
  have "\<exists>q<4. [x, 0, 0, 0] = indexRow q" if "x = of_nat k" "k < 4" for x k
    using that by (auto simp: indexRow_def)
  from this [of 0 0] this [of 1 1] this [of 2 2] this [of 3 3]
  have i: "Mirror_inv ?r1"
    using quadrantMap_range [of os] by (simp add: Mirror_inv_def shape4_def all_lt4)
  have b: "Mirror_bounded ?r1"
    using assms(1) by (simp add: Mirror_bounded_def whole_0)
  have d: "0 < transitionDuration (opts ?r1)" using assms(2) by simp
  from assms(3) have "Mirror_setMix False ?r1 = Inr st0"
    by (simp add: Mirror_init_def Mirror_updateMap_def Mirror_setQuadrantMap_def)
  with i b d show ?thesis by (rule setMix_bounded)
qed

subsection \<open>The weights of a transition\<close>

lemma fractional_duration_leaves_unit_interval:
  "(case Mirror_init (Mirror_example_opts\<lparr>transitionDuration := 1 / 2\<rparr>) of
      Inl e \<Rightarrow> False
    | Inr st0 \<Rightarrow>
       (case Mirror_draw False 0 st0 of
          Inl e \<Rightarrow> False
        | Inr st \<Rightarrow> Mirror_inTransition st \<and> animFrameCount st = - (1 / 2) \<and>
                   mix st ! 2 = [2, 0, - 1, 0] \<and> sum_list (mix st ! 2) = 1))"
  by (simp add: Mirror_init_def Mirror_updateMap_def Mirror_setQuadrantMap_def Mirror_setMix_def
        Mirror_draw_def Mirror_beatStep_def Mirror_inTransition_def Mirror_example_opts_def
        defaultOptions_def quadrantMap_def oneHotRow_def upt4 Let_def)

text \<open>
  C6, as stated, fails. While the transition that \<open>init\<close> starts is pending (positive
  \<open>transitionDuration\<close> 2), \<open>smoothTransition\<close> is switched off, \<open>topToBottom\<close> is
  switched off, which writes the mix vectors in index format, and \<open>smoothTransition\<close> is
  switched on again. The Mirror is in a transition then, the next draw hands the shader the
  mode 1 with the vectors [0,0,0,0], [1,0,0,0], [2,0,0,0], [3,0,0,0], and the weights of
  the quadrants 0, 2 and 3 sum to 0, 2 and 3.
\<close>

theorem Mirror_weights_after_smoothing_toggled:
  "Mirror_init Mirror_example_opts = Inr Mirror_example_start
   \<and> 0 < transitionDuration Mirror_example_opts
   \<and> Mirror_inTransition Mirror_example_start
   \<and> (case Mirror_session [Assign (SmoothTransition False), Ev (SetOption TopToBottom False),
                            Assign (SmoothTransition True)] Mirror_example_start of
        Inl e \<Rightarrow> False
      | Inr st \<Rightarrow>
          Mirror_inTransition st \<and>
          mix st = [[0, 0, 0, 0], [1, 0, 0, 0], [2, 0, 0, 0], [3, 0, 0, 0]] \<and>
          sum_list (mix st ! 0) = 0 \<and> sum_list (mix st ! 2) = 2 \<and> sum_list (mix st ! 3) = 3 \<and>
          Mirror_uniforms False 0 st
            = Inr (True, [[0, 0, 0, 0], [1, 0, 0, 0], [2, 0, 0, 0], [3, 0, 0, 0]]))"
proof -
  have "case Mirror_session [Assign (SmoothTransition False), Ev (SetOption TopToBottom False),
                            Assign (SmoothTransition True)] Mirror_example_start of
        Inl e \<Rightarrow> False
      | Inr st \<Rightarrow>
          Mirror_inTransition st \<and>
          mix st = [[0, 0, 0, 0], [1, 0, 0, 0], [2, 0, 0, 0], [3, 0, 0, 0]] \<and>
          sum_list (mix st ! 0) = 0 \<and> sum_list (mix st ! 2) = 2 \<and> sum_list (mix st ! 3) = 3 \<and>
          Mirror_uniforms False 0 st
            = Inr (True, [[0, 0, 0, 0], [1, 0, 0, 0], [2, 0, 0, 0], [3, 0, 0, 0]])"
    by (simp add: Mirror_assign_def Mirror_setOption_def Mirror_updateMap_def
          Mirror_setQuadrantMap_def Mirror_setMix_def Mirror_inTransition_def Mirror_uniforms_def
          Mirror_beatStep_def Mirror_example_start_def Mirror_example_opts_def defaultOptions_def
          quadrantMap_def upt4 Let_def)
  moreover have "0 < transitionDuration Mirror_example_opts"
    "Mirror_inTransition Mirror_example_start"
    by (simp_all add: Mirror_inTransition_def Mirror_example_start_def Mirror_example_opts_def
          defaultOptions_def)
  ultimately show ?thesis using example_init by blast
qed

text \<open>
  C6, amended. For every positive \<open>transitionDuration\<close>: \<open>init\<close> succeeds, and so does
  every session of draws (with or without beat-random remaps), direction changes and
  assignments of the other options in which \<open>smoothTransition\<close> is not switched off while a
  transition is pending and every duration assigned is positive. In every state of such a
  session that is in a transition, as in every mix handed to the shader in transition mode,
  each of the four mix vectors has four weights that sum to 1: the sum is 1 after the
  one-hot conversion and every delta addition keeps it. Numbers are exact here, so the sum
  is exactly 1. When moreover the durations are whole numbers of ticks, every weight of a
  transition lies between 0 and 1, which is where doubles follow the exact values up to
  rounding; with other durations a weight can leave that interval (duration 1/2: a weight
  of 2 after one tick).
\<close>

theorem Mirror_weights_sum_to_one:
  assumes "0 < transitionDuration os"
  shows "\<exists>st0. Mirror_init os = Inr st0 \<and>
           (\<forall>as. Mirror_guarded as st0 \<longrightarrow>
              (\<exists>st. Mirror_session as st0 = Inr st \<and>
                 (Mirror_inTransition st \<longrightarrow>
                    shape4 (mix st) \<and> (\<forall>i<4. sum_list (mix st ! i) = 1) \<and>
                    (whole (transitionDuration os) \<and> wholeDurations as \<longrightarrow>
                       (\<forall>i<4. \<forall>j<4. 0 \<le> mix st ! i ! j \<and> mix st ! i ! j \<le> 1))) \<and>
                 (\<forall>beat randVal. \<exists>m. Mirror_uniforms beat randVal st = Inr (False, m) \<or>
                    (Mirror_uniforms beat randVal st = Inr (True, m) \<and>
                       shape4 m \<and> (\<forall>i<4. sum_list (m ! i) = 1)))))"
proof -
  from good_result [OF init_good [of os] assms] obtain st0 where
    st0: "Mirror_init os = Inr st0" "Mirror_inv st0"
         "transitionDuration (opts st0) = transitionDuration os"
    by blast
  from st0(3) assms have pos0: "0 < transitionDuration (opts st0)" by simp
  have "\<exists>st. Mirror_session as st0 = Inr st \<and>
              (Mirror_inTransition st \<longrightarrow>
                 shape4 (mix st) \<and> (\<forall>i<4. sum_list (mix st ! i) = 1) \<and>
                 (whole (transitionDuration os) \<and> wholeDurations as \<longrightarrow>
                    (\<forall>i<4. \<forall>j<4. 0 \<le> mix st ! i ! j \<and> mix st ! i ! j \<le> 1))) \<and>
              (\<forall>beat randVal. \<exists>m. Mirror_uniforms beat randVal st = Inr (False, m) \<or>
                 (Mirror_uniforms beat randVal st = Inr (True, m) \<and>
                    shape4 m \<and> (\<forall>i<4. sum_list (m ! i) = 1)))"
    if g: "Mirror_guarded as st0" for as
  proof -
    from session_good [OF st0(2) pos0 g] obtain st where
      st: "Mirror_session as st0 = Inr st" "Mirror_inv st" "0 < transitionDuration (opts st)"
      by blast
    have tr: "shape4 (mix s) \<and> (\<forall>i<4. sum_list (mix s ! i) = 1)"
      if "Mirror_inv s" "Mirror_inTransition s" for s
      using that by (simp add: Mirror_inv_def Mirror_inTransition_def)
    have bd: "\<forall>i<4. \<forall>j<4. 0 \<le> mix st ! i ! j \<and> mix st ! i ! j \<le> 1"
      if "Mirror_inTransition st" "whole (transitionDuration os) \<and> wholeDurations as"
    proof -
      from that(2) init_bounded [OF _ assms st0(1)] have "Mirror_bounded st0" by simp
      from session_bounded [OF st0(2) this pos0 g _ st(1)] that(2)
      have "Mirror_bounded st" by simp
      with that(1) show ?thesis
        by (simp add: Mirror_bounded_def Mirror_inTransition_def)
    qed
    have "\<exists>m. Mirror_uniforms beat randVal st = Inr (False, m) \<or>
                 (Mirror_uniforms beat randVal st = Inr (True, m) \<and>
                    shape4 m \<and> (\<forall>i<4. sum_list (m ! i) = 1))" for beat randVal
    proof -
      from good_result [OF beatStep_good [OF st(2), of beat randVal] st(3)] obtain st1 where
        st1: "Mirror_beatStep beat randVal st = Inr st1" "Mirror_inv st1"
        by blast
      show ?thesis
        using st1 tr [OF st1(2)] by (cases "Mirror_inTransition st1") (auto simp: Mirror_uniforms_def)
    qed
    with st(1) tr [OF st(2)] bd show ?thesis by blast
  qed
  with st0(1) show ?thesis by blast
qed

theorem Mirror_weights_sum_to_one_witness:
  "0 < transitionDuration Mirror_example_opts
   \<and> Mirror_init Mirror_example_opts = Inr Mirror_example_start
   \<and> Mirror_guarded [Ev (Draw False 0), Assign (TransitionDuration 4),
                      Ev (SetOption TopToBottom False), Ev (Draw True 5)] Mirror_example_start
   \<and> whole (transitionDuration Mirror_example_opts)
   \<and> wholeDurations [Ev (Draw False 0), Assign (TransitionDuration 4),
                      Ev (SetOption TopToBottom False), Ev (Draw True 5)]
   \<and> (\<exists>st. Mirror_session [Ev (Draw False 0), Assign (TransitionDuration 4),
                            Ev (SetOption TopToBottom False), Ev (Draw True 5)] Mirror_example_start
              = Inr st
          \<and> Mirror_inTransition st
          \<and> mix st = [[1, 0, 0, 0], [0, 1, 0, 0], [3 / 8, 0, 5 / 8, 0], [0, 3 / 8, 0, 5 / 8]]
          \<and> sum_list (mix st ! 2) = 1 \<and> 0 \<le> mix st ! 2 ! 0 \<and> mix st ! 2 ! 0 \<le> 1)"
proof -
  let ?as = "[Ev (Draw False 0), Assign (TransitionDuration 4),
              Ev (SetOption TopToBottom False), Ev (Draw True 5)]"
  let ?st = "\<lparr>opts = Mirror_example_opts\<lparr>topToBottom := False, transitionDuration := 4\<rparr>,
              animFrameCount = 3, map_quad = [0, 1, 2, 3],
              mix = [[1, 0, 0, 0], [0, 1, 0, 0], [3 / 8, 0, 5 / 8, 0], [0, 3 / 8, 0, 5 / 8]],
              mixDelta = [[0, 0, 0, 0], [0, 0, 0, 0], [- (1 / 8), 0, 1 / 8, 0],
                          [0, - (1 / 8), 0, 1 / 8]]\<rparr>"
  have pos: "0 < transitionDuration Mirror_example_opts"
    and wh: "whole (transitionDuration Mirror_example_opts)" "wholeDurations ?as"
    by (simp_all add: Mirror_example_opts_def defaultOptions_def whole_def)
  have run: "Mirror_session ?as Mirror_example_start = Inr ?st"
    by (simp add: Mirror_assign_def Mirror_setOption_def Mirror_updateMap_def
          Mirror_setQuadrantMap_def Mirror_setMix_def Mirror_draw_def Mirror_beatStep_def
          Mirror_inTransition_def Mirror_example_start_def Mirror_example_opts_def
          defaultOptions_def quadrantMap_def randomDirs_def upt4 Let_def)
  have g: "Mirror_guarded ?as Mirror_example_start"
    by (simp add: Mirror_assign_def Mirror_setOption_def Mirror_updateMap_def
          Mirror_setQuadrantMap_def Mirror_setMix_def Mirror_draw_def Mirror_beatStep_def
          Mirror_inTransition_def Mirror_example_start_def Mirror_example_opts_def
          defaultOptions_def quadrantMap_def randomDirs_def upt4 Let_def)
  have tr: "Mirror_inTransition ?st"
    by (simp add: Mirror_inTransition_def Mirror_example_opts_def defaultOptions_def)
  from Mirror_weights_sum_to_one [OF pos] obtain st0 where
    st0: "Mirror_init Mirror_example_opts = Inr st0"
         "\<forall>as. Mirror_guarded as st0 \<longrightarrow>
              (\<exists>st. Mirror_session as st0 = Inr st \<and>
                 (Mirror_inTransition st \<longrightarrow>
                    shape4 (mix st) \<and> (\<forall>i<4. sum_list (mix st ! i) = 1) \<and>
                    (whole (transitionDuration Mirror_example_opts) \<and> wholeDurations as \<longrightarrow>
                       (\<forall>i<4. \<forall>j<4. 0 \<le> mix st ! i ! j \<and> mix st ! i ! j \<le> 1))) \<and>
                 (\<forall>beat randVal. \<exists>m. Mirror_uniforms beat randVal st = Inr (False, m) \<or>
                    (Mirror_uniforms beat randVal st = Inr (True, m) \<and>
                       shape4 m \<and> (\<forall>i<4. sum_list (m ! i) = 1))))"
    by blast
  from st0(1) example_init have e: "st0 = Mirror_example_start" by simp
  from st0(2) [rule_format, of ?as] g e run tr wh
  have "(\<forall>i<4. sum_list (mix ?st ! i) = 1) \<and>
        (\<forall>i<4. \<forall>j<4. 0 \<le> mix ?st ! i ! j \<and> mix ?st ! i ! j \<le> 1)"
    by simp
  then have "sum_list (mix ?st ! 2) = 1 \<and> 0 \<le> mix ?st ! 2 ! 0 \<and> mix ?st ! 2 ! 0 \<le> 1"
    by simp
  with pos example_init g wh run tr show ?thesis by simp
qed

subsection \<open>A transition, tick by tick\<close>

lemma shape4_expand:
  assumes "shape4 (mx::rat list list)"
  shows "map (\<lambda>i. map (\<lambda>j. mx ! i ! j) [0..<4]) [0..<4] = mx"
proof -
  have l: "length mx = 4" "length (mx ! 0) = 4" "length (mx ! 1) = 4" "length (mx ! 2) = 4"
          "length (mx ! 3) = 4"
    using assms by (simp_all add: shape4_def)
  have "mx = [mx ! 0, mx ! 1, mx ! 2, mx ! 3]"
    using len4_expand [OF l(1)] .
  moreover have "mx ! 0 = [mx ! 0 ! 0, mx ! 0 ! 1, mx ! 0 ! 2, mx ! 0 ! 3]"
    using len4_expand [OF l(2)] .
  moreover have "mx ! 1 = [mx ! 1 ! 0, mx ! 1 ! 1, mx ! 1 ! 2, mx ! 1 ! 3]"
    using len4_expand [OF l(3)] .
  moreover have "mx ! 2 = [mx ! 2 ! 0, mx ! 2 ! 1, mx ! 2 ! 2, mx ! 2 ! 3]"
    using len4_expand [OF l(4)] .
  moreover have "mx ! 3 = [mx ! 3 ! 0, mx ! 3 ! 1, mx ! 3 ! 2, mx ! 3 ! 3]"
    using len4_expand [OF l(5)] .
  ultimately show ?thesis
    by (simp add: upt4)
qed

lemma transitionState_0: "shape4 (mix st1) \<Longrightarrow> Mirror_transitionState st1 0 = st1"
  by (simp add: Mirror_transitionState_def shape4_expand)

lemma draw_in_transition:
  assumes "smoothTransition (opts st1)" "animFrameCount st1 = of_nat n" "Suc k < n"
  shows "Mirror_draw False rv (Mirror_transitionState st1 k) = Inr (Mirror_transitionState st1 (Suc k))"
proof -
  have c: "animFrameCount st1 - of_nat k \<noteq> 0" "animFrameCount st1 - of_nat k - 1 \<noteq> 0"
    using assms(2,3) by (simp_all add: of_nat_diff [symmetric] del: of_nat_diff)
  have "of_nat n - (of_nat k :: rat) - 1 = of_nat n - (1 + of_nat k)" by simp
  then show ?thesis
    using assms(1,2) c
    by (simp add: Mirror_draw_def Mirror_beatStep_def Mirror_inTransition_def
          Mirror_transitionState_def Let_def upt4 algebra_simps)
qed

lemma draws_in_transition:
  assumes "smoothTransition (opts st1)" "animFrameCount st1 = of_nat n"
  shows "j + k < n \<Longrightarrow>
         Mirror_run (replicate k (Draw False rv)) (Mirror_transitionState st1 j)
           = Inr (Mirror_transitionState st1 (j + k))"
proof (induction k arbitrary: j)
  case 0
  then show ?case by simp
next
  case (Suc k)
  from Suc.prems have "Suc j < n" "Suc j + k < n" by simp_all
  with draw_in_transition [OF assms, of j rv] Suc.IH [of "Suc j"]
  show ?case by simp
qed

lemma last_draw:
  assumes "smoothTransition (opts st1)" "animFrameCount st1 = of_nat n" "0 < n"
  shows "Mirror_draw False rv (Mirror_transitionState st1 (n - 1))
           = Inr (st1\<lparr>animFrameCount := 0,
                     mix := map (\<lambda>i. indexRow (map_quad st1 ! i)) [0..<4]\<rparr>)"
proof -
  have "(of_nat n :: rat) - of_nat (n - 1) = 1"
    using assms(3) by (simp add: of_nat_diff)
  then show ?thesis
    using assms(1,2)
    by (simp add: Mirror_draw_def Mirror_beatStep_def Mirror_inTransition_def
          Mirror_transitionState_def Mirror_setMix_def indexRow_def Let_def)
qed

lemma run_append:
  "Mirror_run (xs @ ys) st =
     (case Mirror_run xs st of Inl e \<Rightarrow> Inl e | Inr s \<Rightarrow> Mirror_run ys s)"
  by (induction xs arbitrary: st) (simp_all split: sum.splits)

lemma index_not_oneHot: "q < 4 \<Longrightarrow> indexRow q \<noteq> oneHot q"
  by (auto dest!: lt4_cases simp: indexRow_def oneHot_def upt4)

lemma index_samples_target:
  "MirrorProgram_main False (indexRow q) c = c (int q)"
  by (simp add: MirrorProgram_main_def glsl_int_def indexRow_def)

lemma delta_reaches_target:
  assumes "(d::rat) \<noteq> 0"
  shows "a + d * ((t - a) / d) = t"
  using assms by simp

text \<open>
  C5, as stated, fails on its last clause. A Mirror with \<open>smoothTransition\<close> on and
  \<open>transitionDuration\<close> 4 has finished, four ticks after \<open>init\<close>, the transition that
  \<open>init\<close> starts; \<open>topToBottom\<close> is then switched off, which starts a transition to the
  identity map. Three ticks later the weights are three quarters of the way; the fourth
  tick leaves the index vectors [0,0,0,0], [1,0,0,0], [2,0,0,0], [3,0,0,0], none of which
  is the one-hot vector of its target quadrant.
\<close>

theorem Mirror_transition_ends_in_index_format:
  "(case Mirror_init (defaultOptions\<lparr>smoothTransition := True\<rparr>) of
      Inl e \<Rightarrow> False
    | Inr s0 \<Rightarrow>
       (case Mirror_run (replicate 4 (Draw False 0)) s0 of
          Inl e \<Rightarrow> False
        | Inr s \<Rightarrow>
           smoothTransition (opts s) \<and> transitionDuration (opts s) = 4 \<and>
           \<not> Mirror_inTransition s \<and>
           mix s = [[0, 0, 0, 0], [1, 0, 0, 0], [0, 0, 0, 0], [1, 0, 0, 0]] \<and>
           (case Mirror_setOption TopToBottom False s of
              Inl e \<Rightarrow> False
            | Inr st1 \<Rightarrow>
                Mirror_inTransition st1 \<and> map_quad st1 = [0, 1, 2, 3] \<and>
                mix st1 = [[1, 0, 0, 0], [0, 1, 0, 0], [1, 0, 0, 0], [0, 1, 0, 0]] \<and>
                (case Mirror_run (replicate 3 (Draw False 0)) st1 of
                   Inl e \<Rightarrow> False
                 | Inr s3 \<Rightarrow>
                     Mirror_inTransition s3 \<and>
                     mix s3 = [[1, 0, 0, 0], [0, 1, 0, 0], [1 / 4, 0, 3 / 4, 0],
                               [0, 1 / 4, 0, 3 / 4]]) \<and>
                (case Mirror_run (replicate 4 (Draw False 0)) st1 of
                   Inl e \<Rightarrow> False
                 | Inr sn \<Rightarrow>
                     \<not> Mirror_inTransition sn \<and>
                     mix sn = [[0, 0, 0, 0], [1, 0, 0, 0], [2, 0, 0, 0], [3, 0, 0, 0]] \<and>
                     map (\<lambda>i. oneHot (map_quad st1 ! i)) [0..<4]
                       = [[1, 0, 0, 0], [0, 1, 0, 0], [0, 0, 1, 0], [0, 0, 0, 1]] \<and>
                     mix sn ! 0 \<noteq> oneHot (map_quad st1 ! 0) \<and>
                     mix sn ! 1 \<noteq> oneHot (map_quad st1 ! 1) \<and>
                     mix sn ! 2 \<noteq> oneHot (map_quad st1 ! 2) \<and>
                     mix sn ! 3 \<noteq> oneHot (map_quad st1 ! 3)))))"
  by (simp add: Mirror_init_def Mirror_setOption_def Mirror_updateMap_def Mirror_setQuadrantMap_def
        Mirror_setMix_def Mirror_draw_def Mirror_beatStep_def Mirror_inTransition_def
        defaultOptions_def quadrantMap_def oneHotRow_def oneHot_def
        upt4 Let_def eval_nat_numeral)

text \<open>
  C5, amended. Let \<open>smoothTransition\<close> be on, \<open>transitionDuration\<close> a positive whole number \<open>n\<close>,
  no transition pending, and the mix vectors in index format for the source quadrants \<open>p\<close>.
  A change of the quadrant map then turns the mix vectors into the one-hot vectors of \<open>p\<close>
  and sets each delta to (target one-hot - current one-hot) / n. After \<open>k < n\<close> draw ticks
  the Mirror is still in transition and its weights are the start plus \<open>k\<close> times the delta.
  After exactly \<open>n\<close> draw ticks it is out of transition, back in index mode: the \<open>n\<close>-th
  tick does not add the delta but writes each mix vector in index format, the target
  quadrant followed by three zeros. So the weights do not equal the target one-hot vector
  then, in any quadrant, although the start plus \<open>n\<close> times the delta is that vector; the
  shader's single-sample branch returns the colour of the target quadrant.
\<close>

theorem Mirror_smooth_transition:
  assumes smooth: "smoothTransition (opts st)"
      and dur: "transitionDuration (opts st) = of_nat n" "0 < n"
      and idle: "animFrameCount st = 0"
      and index: "\<forall>i<4. p ! i < 4" "mix st = map (\<lambda>i. indexRow (p ! i)) [0..<4]"
  shows "\<exists>st1. Mirror_setQuadrantMap random randVal st = Inr st1 \<and>
           mix st1 = map (\<lambda>i. oneHot (p ! i)) [0..<4] \<and>
           mixDelta st1 =
             map (\<lambda>i. map (\<lambda>j. (oneHot (map_quad st1 ! i) ! j - oneHot (p ! i) ! j) / of_nat n)
                    [0..<4]) [0..<4] \<and>
           (\<forall>k<n. \<exists>sk. Mirror_run (replicate k (Draw False rv)) st1 = Inr sk \<and>
                     Mirror_inTransition sk \<and>
                     mix sk = map (\<lambda>i. map (\<lambda>j. oneHot (p ! i) ! j + of_nat k * mixDelta st1 ! i ! j)
                                    [0..<4]) [0..<4]) \<and>
           (\<exists>sn. Mirror_run (replicate n (Draw False rv)) st1 = Inr sn \<and>
                  \<not> Mirror_inTransition sn \<and>
                  mix sn = map (\<lambda>i. indexRow (map_quad st1 ! i)) [0..<4] \<and>
                  (\<forall>i<4. mix sn ! i \<noteq> oneHot (map_quad st1 ! i)) \<and>
                  (\<forall>i<4. \<forall>j<4. oneHot (p ! i) ! j + of_nat n * mixDelta st1 ! i ! j
                                   = oneHot (map_quad st1 ! i) ! j) \<and>
                  (\<forall>i<4. \<forall>c. MirrorProgram_main (Mirror_inTransition sn) (mix sn ! i) c
                               = c (int (map_quad st1 ! i))))"
proof -
  define m where "m = (if random then quadrantMap (randomDirs randVal (opts st))
                       else quadrantMap (opts st))"
  define mx where "mx = map (\<lambda>i. oneHot (p ! i)) [0..<4]"
  define st1 where
    "st1 = st\<lparr>map_quad := m, mix := mx,
              mixDelta := map (\<lambda>i. map (\<lambda>j. ((if j = m ! i then 1 else 0) - mx ! i ! j)
                                           / of_nat n) [0..<4]) [0..<4],
              animFrameCount := of_nat n\<rparr>"
  have mr: "length m = 4" "\<forall>i<4. m ! i < 4"
    using quadrantMap_range [of "randomDirs randVal (opts st)"] quadrantMap_range [of "opts st"]
    by (simp_all add: m_def)
  have pr: "p ! 0 < 4" "p ! 1 < 4" "p ! 2 < 4" "p ! 3 < 4"
    using index(1) by simp_all
  have nz: "(of_nat n :: rat) \<noteq> 0" using dur(2) by simp
  have conv: "sequence_rows (map (\<lambda>i. oneHotRow (mix st ! i)) [0..<4]) = Inr mx"
    using pr by (simp add: index(2) mx_def upt4 oneHotRow_index)
  have start: "Mirror_setQuadrantMap random randVal st = Inr st1"
    using smooth dur(1) idle conv nz
    by (simp add: Mirror_setQuadrantMap_def Mirror_setMix_def st1_def m_def Let_def)
  have f1: "smoothTransition (opts st1)" "animFrameCount st1 = of_nat n" "map_quad st1 = m"
           "mix st1 = mx"
    using smooth by (simp_all add: st1_def)
  have sh: "shape4 (mix st1)"
    by (simp add: f1 mx_def shape4_def all_lt4 oneHot_def upt4)
  have d1: "mixDelta st1 =
             map (\<lambda>i. map (\<lambda>j. (oneHot (map_quad st1 ! i) ! j - oneHot (p ! i) ! j) / of_nat n)
                    [0..<4]) [0..<4]"
    by (simp add: st1_def mx_def upt4 oneHot_nth)
  have mid: "\<exists>sk. Mirror_run (replicate k (Draw False rv)) st1 = Inr sk \<and>
                     Mirror_inTransition sk \<and>
                     mix sk = map (\<lambda>i. map (\<lambda>j. oneHot (p ! i) ! j + of_nat k * mixDelta st1 ! i ! j)
                                    [0..<4]) [0..<4]" if "k < n" for k
  proof -
    from draws_in_transition [OF f1(1,2), of 0 k rv] that
    have "Mirror_run (replicate k (Draw False rv)) st1 = Inr (Mirror_transitionState st1 k)"
      by (simp add: transitionState_0 [OF sh])
    moreover have "Mirror_inTransition (Mirror_transitionState st1 k)"
      using that f1(1,2) by (simp add: Mirror_inTransition_def Mirror_transitionState_def)
    moreover have "mix (Mirror_transitionState st1 k)
        = map (\<lambda>i. map (\<lambda>j. oneHot (p ! i) ! j + of_nat k * mixDelta st1 ! i ! j) [0..<4]) [0..<4]"
      by (simp add: Mirror_transitionState_def f1 mx_def upt4)
    ultimately show ?thesis by blast
  qed
  define sn where "sn = st1\<lparr>animFrameCount := 0, mix := map (\<lambda>i. indexRow (map_quad st1 ! i)) [0..<4]\<rparr>"
  have "replicate n (Draw False rv) = replicate (n - 1) (Draw False rv) @ [Draw False rv]"
    using dur(2) by (cases n) (simp_all add: replicate_append_same)
  moreover have "Mirror_run (replicate (n - 1) (Draw False rv)) st1
                   = Inr (Mirror_transitionState st1 (n - 1))"
    using draws_in_transition [OF f1(1,2), of 0 "n - 1" rv] dur(2)
    by (simp add: transitionState_0 [OF sh])
  ultimately have fin: "Mirror_run (replicate n (Draw False rv)) st1 = Inr sn"
    using last_draw [OF f1(1,2) dur(2), of rv] by (simp add: run_append sn_def)
  have nt: "\<not> Mirror_inTransition sn"
    by (simp add: Mirror_inTransition_def sn_def)
  have mixn: "mix sn = map (\<lambda>i. indexRow (map_quad st1 ! i)) [0..<4]"
    by (simp add: sn_def)
  have differ: "\<forall>i<4. mix sn ! i \<noteq> oneHot (map_quad st1 ! i)"
    using mr(2) by (simp add: mixn f1(3) index_not_oneHot)
  have reach: "\<forall>i<4. \<forall>j<4. oneHot (p ! i) ! j + of_nat n * mixDelta st1 ! i ! j
                                   = oneHot (map_quad st1 ! i) ! j"
    using nz by (simp add: d1 delta_reaches_target)
  have rend: "\<forall>i<4. \<forall>c. MirrorProgram_main (Mirror_inTransition sn) (mix sn ! i) c
                               = c (int (map_quad st1 ! i))"
    using nt by (simp add: mixn index_samples_target)
  from start f1(4) d1 mid fin nt mixn differ reach rend show ?thesis
    unfolding mx_def by blast
qed

theorem Mirror_smooth_transition_witness:
  "smoothTransition (opts Mirror_example) \<and> transitionDuration (opts Mirror_example) = of_nat 4
   \<and> animFrameCount Mirror_example = 0
   \<and> mix Mirror_example = map (\<lambda>i. indexRow ([0, 1, 0, 1] ! i)) [0..<4]
   \<and> (\<exists>st1 sn. Mirror_setQuadrantMap True 0 Mirror_example = Inr st1
        \<and> mix st1 = [[1, 0, 0, 0], [0, 1, 0, 0], [1, 0, 0, 0], [0, 1, 0, 0]]
        \<and> Mirror_run (replicate 4 (Draw False 0)) st1 = Inr sn
        \<and> mix sn = map (\<lambda>i. indexRow (map_quad st1 ! i)) [0..<4]
        \<and> mix sn ! 2 \<noteq> oneHot (map_quad st1 ! 2))"
proof -
  have h: "smoothTransition (opts Mirror_example)"
          "transitionDuration (opts Mirror_example) = of_nat 4" "0 < (4::nat)"
          "animFrameCount Mirror_example = 0" "\<forall>i<4. [0, 1, 0, 1] ! i < (4::nat)"
          "mix Mirror_example = map (\<lambda>i. indexRow ([0, 1, 0, 1] ! i)) [0..<4]"
    by (simp_all add: Mirror_example_def defaultOptions_def indexRow_def upt4 all_lt4)
  from Mirror_smooth_transition [OF h, of True 0 0] obtain st1 sn where
    r: "Mirror_setQuadrantMap True 0 Mirror_example = Inr st1"
       "mix st1 = map (\<lambda>i. oneHot ([0, 1, 0, 1] ! i)) [0..<4]"
       "Mirror_run (replicate 4 (Draw False 0)) st1 = Inr sn"
       "mix sn = map (\<lambda>i. indexRow (map_quad st1 ! i)) [0..<4]"
       "\<forall>i<4. mix sn ! i \<noteq> oneHot (map_quad st1 ! i)"
    by blast
  have "map (\<lambda>i. oneHot ([0, 1, 0, 1] ! i)) [0..<4]
          = [[1, 0, 0, 0], [0, 1, 0, 0], [1, 0, 0, 0], [0, 1, 0, 0::rat]]"
    by (simp add: oneHot_def upt4)
  with r(2) have m1: "mix st1 = [[1, 0, 0, 0], [0, 1, 0, 0], [1, 0, 0, 0], [0, 1, 0, 0]]"
    by simp
  from r(5) have "mix sn ! 2 \<noteq> oneHot (map_quad st1 ! 2)" by simp
  with r(1,3,4) m1 h(1,2,4,6) show ?thesis by blast
qed

section \<open>Properties of Main\<close>

subsection \<open>The invariant of the frame loop\<close>

lemmas frame_defs = Main_frames_inv_def Main_ready_def Main_ticking_def Main_startAnimation_def
  Main_stopAnimation_def requestFrame_def cancelFrame_def

lemma setupRoot_result:
  assumes "Main_setupRoot p s = Inr s'"
  shows "rootUnknownTypes (componentRegistry s) p = []"
    and "s' = s\<lparr>registerBank := Map.empty, bootTime := clock s,
                  rootComponent := Some (EffectList p)\<rparr>"
  using assms
  by (auto simp: Main_setupRoot_def EffectList_new_def Let_def split: list.splits)

lemma setupRoot_valid:
  assumes "rootUnknownTypes (componentRegistry s) p = []"
  shows "Main_setupRoot p s =
           Inr (s\<lparr>registerBank := Map.empty, bootTime := clock s,
                   rootComponent := Some (EffectList p)\<rparr>)"
  using assms by (simp add: Main_setupRoot_def EffectList_new_def Let_def)

lemma setupRoot_fields:
  assumes "Main_setupRoot p s = Inr s'"
  shows "isStarted s' = isStarted s"
    and "rsrcMan s' = rsrcMan s"
    and "animReqId s' = animReqId s"
    and "pendingFrames s' = pendingFrames s"
    and "requestAnimationFrame s' = requestAnimationFrame s"
    and "cancelAnimationFrame s' = cancelAnimationFrame s"
    and "rootComponent s' = Some (EffectList p)"
    and "registerBank s' = Map.empty"
    and "meta s' = meta s"
    and "contextHandlers s' = contextHandlers s"
    and "buffers s' = buffers s"
    and "componentRegistry s' = componentRegistry s"
    and "rctx s' = rctx s"
    and "webgl s' = webgl s"
  by (simp_all add: setupRoot_result(2) [OF assms])

lemma frames_inv_eq:
  assumes "isStarted s' = isStarted s" "Main_ready s' = Main_ready s"
          "animReqId s' = animReqId s" "pendingFrames s' = pendingFrames s"
          "requestAnimationFrame s' = requestAnimationFrame s"
          "cancelAnimationFrame s' = cancelAnimationFrame s"
          "(rootComponent s' = None) = (rootComponent s = None)"
          "(rsrcMan s' = None) = (rsrcMan s = None)"
  shows "Main_frames_inv s' = Main_frames_inv s"
  by (simp add: Main_frames_inv_def Main_ticking_def assms)

lemma start_inv: "Main_frames_inv s \<Longrightarrow> Main_start s = Inr s' \<Longrightarrow> Main_frames_inv s'"
  by (auto simp: Main_start_def frame_defs Let_def split: option.splits if_splits)

lemma stop_inv: "Main_frames_inv s \<Longrightarrow> Main_stop s = Inr s' \<Longrightarrow> Main_frames_inv s'"
  by (auto simp: Main_stop_def frame_defs Let_def split: option.splits if_splits)

lemma setupResources_ready:
  "Main_setupResources p keys rm = Inr (rm1, ks) \<Longrightarrow> ready rm1 = ready rm"
  by (auto simp: Main_setupResources_def ResourceManager_clear_def ResourceManager_registerUri_def
        Let_def split: option.splits jsvalue.splits)

lemma loadPreset_result:
  assumes "Main_loadPreset p s = Inr s'"
  shows "\<exists>tree rm rm1 ks. rootComponent s = Some tree \<and> rsrcMan s = Some rm \<and>
           Main_setupResources (assign ''id'' (JStr ''root'') p) (presetResourceKeys s) rm = Inr (rm1, ks) \<and>
           Main_setupRoot (assign ''id'' (JStr ''root'') p)
                  (s\<lparr>rsrcMan := Some rm1, presetResourceKeys := ks,
                      meta := property (assign ''id'' (JStr ''root'') p) ''meta''\<rparr>) = Inr s'"
  using assms
  by (auto simp: Main_loadPreset_def Let_def split: option.splits sum.splits)

lemma loadPreset_inv:
  assumes "Main_frames_inv s" "Main_loadPreset p s = Inr s'"
  shows "Main_frames_inv s'"
proof -
  from loadPreset_result [OF assms(2)] obtain tree rm rm1 ks where
    r: "rootComponent s = Some tree" "rsrcMan s = Some rm"
       "Main_setupResources (assign ''id'' (JStr ''root'') p) (presetResourceKeys s) rm = Inr (rm1, ks)"
       "Main_setupRoot (assign ''id'' (JStr ''root'') p)
                  (s\<lparr>rsrcMan := Some rm1, presetResourceKeys := ks,
                      meta := property (assign ''id'' (JStr ''root'') p) ''meta''\<rparr>) = Inr s'"
    by blast
  from setupResources_ready [OF r(3)] have "ready rm1 = ready rm" .
  with r(1,2) have "Main_frames_inv s' = Main_frames_inv s"
    by (intro frames_inv_eq) (simp_all add: Main_ready_def setupRoot_fields [OF r(4)])
  with assms(1) show ?thesis by simp
qed

lemma resetCanvas_result:
  assumes "Main_resetCanvas s = Inr s'"
  shows "\<exists>tree. rootComponent s = Some tree \<and> webgl s \<and>
           Main_setupRoot (Component_toJSON tree) (s\<lparr>rctx := rctx s + 1\<rparr>) = Inr s'"
  using assms
  by (auto simp: Main_resetCanvas_def Main_initGl_def Let_def split: option.splits if_splits)

lemma resetCanvas_inv:
  assumes "Main_frames_inv s" "Main_resetCanvas s = Inr s'"
  shows "Main_frames_inv s'"
proof -
  from resetCanvas_result [OF assms(2)] obtain tree where
    r: "rootComponent s = Some tree"
       "Main_setupRoot (Component_toJSON tree) (s\<lparr>rctx := rctx s + 1\<rparr>) = Inr s'"
    by blast
  then have "Main_frames_inv s' = Main_frames_inv s"
    by (intro frames_inv_eq) (simp_all add: Main_ready_def setupRoot_fields [OF r(2)])
  with assms(1) show ?thesis by simp
qed

lemma destroy_inv: "Main_frames_inv s \<Longrightarrow> Main_destroy s = Inr s' \<Longrightarrow> Main_frames_inv s'"
  by (auto simp: Main_destroy_def Main_stop_def frame_defs Let_def split: option.splits if_splits sum.splits)

lemma rsrcWait_inv: "Main_frames_inv s \<Longrightarrow> Main_frames_inv (Main_rsrcWait s)"
  by (auto simp: Main_rsrcWait_def Main_handleRsrcWait_def frame_defs split: option.splits if_splits)

lemma rsrcReady_inv: "Main_frames_inv s \<Longrightarrow> Main_frames_inv (Main_rsrcReady s)"
  by (auto simp: Main_rsrcReady_def Main_handleRsrcReady_def frame_defs split: option.splits if_splits)

lemma drawFrame_inv:
  "Main_frames_inv s \<Longrightarrow> Main_drawFrame sch rid d s = Inr s' \<Longrightarrow> Main_frames_inv s'"
  by (auto simp: Main_drawFrame_def frame_defs Let_def split: option.splits if_splits)

lemma call_inv:
  assumes "Main_frames_inv s" "part001_call c" "Main_call c s = Inr (r, s')"
  shows "Main_frames_inv s'"
proof (cases c)
  case Start
  with assms show ?thesis by (auto simp: void_def split: sum.splits dest: start_inv)
next
  case Stop
  with assms show ?thesis by (auto simp: void_def split: sum.splits dest: stop_inv)
next
  case (LoadPreset p)
  with assms show ?thesis by (auto simp: void_def split: sum.splits dest: loadPreset_inv)
next
  case ResetCanvas
  with assms show ?thesis by (auto simp: void_def split: sum.splits dest: resetCanvas_inv)
next
  case NotifyResize
  with assms(3) have "s' = s\<lparr>emitted := emitted s @ [''resize'']\<rparr>"
    by (simp add: void_def Main_notifyResize_def)
  then have "Main_frames_inv s' = Main_frames_inv s"
    by (intro frames_inv_eq) (simp_all add: Main_ready_def)
  with assms(1) show ?thesis by simp
next
  case (CacheBuffer n b)
  with assms(3) obtain m where "s' = s\<lparr>buffers := Some m\<rparr>"
    by (auto simp: void_def Main_cacheBuffer_def split: option.splits)
  then have "Main_frames_inv s' = Main_frames_inv s"
    by (intro frames_inv_eq) (simp_all add: Main_ready_def)
  with assms(1) show ?thesis by simp
next
  case (GetBuffer n)
  with assms show ?thesis by (auto split: sum.splits)
next
  case (Get k)
  with assms show ?thesis by auto
next
  case (SetAttribute k v)
  with assms(3) have "s' = s \<or> s' = s\<lparr>meta := v\<rparr>"
    by (auto simp: Main_setAttribute_def split: if_splits)
  moreover have "Main_frames_inv (s\<lparr>meta := v\<rparr>) = Main_frames_inv s"
    by (intro frames_inv_eq) (simp_all add: Main_ready_def)
  ultimately show ?thesis using assms(1) by auto
next
  case ToJSON
  with assms show ?thesis by (auto split: sum.splits)
next
  case Destroy
  with assms show ?thesis by (auto simp: void_def split: sum.splits dest: destroy_inv)
next
  case HandleRsrcWait
  with assms show ?thesis by simp
next
  case HandleRsrcReady
  with assms show ?thesis by simp
next
  case RsrcWait
  with assms show ?thesis by (auto simp: rsrcWait_inv)
next
  case RsrcReady
  with assms show ?thesis by (auto simp: rsrcReady_inv)
next
  case ContextLost
  with assms show ?thesis
    by (auto simp: void_def Main_contextLost_def split: sum.splits if_splits dest: stop_inv)
next
  case ContextRestored
  with assms show ?thesis
    by (auto simp: void_def Main_contextRestored_def split: sum.splits if_splits dest: resetCanvas_inv)
next
  case (Frame sch rid d)
  with assms show ?thesis by (auto simp: void_def split: sum.splits dest: drawFrame_inv)
qed

lemma run_inv:
  "Main_frames_inv s \<Longrightarrow> list_all part001_call cs \<Longrightarrow> Main_run cs s = Inr (rs, s') \<Longrightarrow>
   Main_frames_inv s'"
proof (induction cs arbitrary: s rs)
  case Nil
  then show ?case by simp
next
  case (Cons c cs)
  from Cons.prems(3) obtain r s1 rs1 where
    c: "Main_call c s = Inr (r, s1)" and r: "Main_run cs s1 = Inr (rs1, s')"
    by (auto split: sum.splits prod.splits)
  from Cons.prems(1,2) c have "Main_frames_inv s1" by (auto dest: call_inv)
  with Cons.IH [OF _ _ r] Cons.prems(2) show ?case by simp
qed

lemma construct_result:
  assumes "Main_construct raf caf options now = Inr s"
  shows "s = \<lparr>isStarted = False, stats = (showStat options = Some True), meta = JObj [],
              rootComponent = Some (EffectList [(''id'', JStr ''root'')]),
              animReqId = None, buffers = None,
              requestAnimationFrame = raf, cancelAnimationFrame = caf,
              presetResourceKeys = [], registerBank = Map.empty, bootTime = now,
              rsrcMan = Some (Main_initResourceManager
                               (case resourcePrefix options of None \<Rightarrow> [] | Some p \<Rightarrow> p)),
              componentRegistry = Main_initComponentRegistry, rctx = 1, emitted = [],
              contextHandlers = True, pendingFrames = {}, nextFrameId = 0, clock = now,
              webgl = True\<rparr>"
  using assms
  by (auto simp: Main_construct_def Main_initGl_def Main_setupRoot_def EffectList_new_def
        rootUnknownTypes_def split: if_splits)

lemma construct_inv: "Main_construct sch sch options now = Inr s \<Longrightarrow> Main_frames_inv s"
  by (drule construct_result)
     (simp add: Main_frames_inv_def Main_ready_def Main_initResourceManager_def Main_ticking_def)

lemma constructor1_inv: "Main1_constructor options now = Inr s \<Longrightarrow> Main_frames_inv s"
  by (auto simp: Main1_constructor_def split: if_splits dest: construct_inv)

subsection \<open>The root stays a valid tree\<close>

lemma root_inv_eq:
  assumes "rootComponent s' = rootComponent s \<and> componentRegistry s' = componentRegistry s"
  shows "Main_root_inv s' = Main_root_inv s"
  by (simp add: Main_root_inv_def assms)

lemma setupRoot_root_inv:
  assumes "Main_setupRoot p s = Inr s'"
  shows "Main_root_inv s'"
  using setupRoot_result(1) [OF assms]
  by (simp add: Main_root_inv_def setupRoot_fields [OF assms])

lemma startAnimation_root:
  "rootComponent (Main_startAnimation s) = rootComponent s \<and>
   componentRegistry (Main_startAnimation s) = componentRegistry s"
  by (simp add: Main_startAnimation_def requestFrame_def Let_def split: prod.splits)

lemma stopAnimation_root:
  "rootComponent (Main_stopAnimation s) = rootComponent s \<and>
   componentRegistry (Main_stopAnimation s) = componentRegistry s"
  by (simp add: Main_stopAnimation_def cancelFrame_def split: option.splits)

lemma start_root: "Main_start s = Inr s' \<Longrightarrow>
    rootComponent s' = rootComponent s \<and> componentRegistry s' = componentRegistry s"
  by (auto simp: Main_start_def Let_def startAnimation_root split: if_splits option.splits)

lemma stop_root: "Main_stop s = Inr s' \<Longrightarrow>
    rootComponent s' = rootComponent s \<and> componentRegistry s' = componentRegistry s"
  by (auto simp: Main_stop_def Let_def stopAnimation_root split: if_splits option.splits)

lemma drawFrame_root: "Main_drawFrame sch rid d s = Inr s' \<Longrightarrow>
    rootComponent s' = rootComponent s \<and> componentRegistry s' = componentRegistry s"
  by (auto simp: Main_drawFrame_def Let_def startAnimation_root split: if_splits option.splits)

lemma rsrcWait_root:
  "rootComponent (Main_rsrcWait s) = rootComponent s \<and>
   componentRegistry (Main_rsrcWait s) = componentRegistry s"
  by (simp add: Main_rsrcWait_def Main_handleRsrcWait_def stopAnimation_root split: option.splits)

lemma rsrcReady_root:
  "rootComponent (Main_rsrcReady s) = rootComponent s \<and>
   componentRegistry (Main_rsrcReady s) = componentRegistry s"
  by (simp add: Main_rsrcReady_def Main_handleRsrcReady_def startAnimation_root split: option.splits)

lemma call_root_inv:
  assumes "Main_root_inv s" "Main_call c s = Inr (r, s')"
  shows "Main_root_inv s'"
proof (cases c)
  case Start
  with assms(2) have "Main_start s = Inr s'" by (simp add: void_def split: sum.splits)
  from root_inv_eq [OF start_root [OF this]] assms(1) show ?thesis by simp
next
  case Stop
  with assms(2) have "Main_stop s = Inr s'" by (simp add: void_def split: sum.splits)
  from root_inv_eq [OF stop_root [OF this]] assms(1) show ?thesis by simp
next
  case (LoadPreset p)
  with assms(2) have "Main_loadPreset p s = Inr s'" by (simp add: void_def split: sum.splits)
  from loadPreset_result [OF this] obtain s0 p0 where "Main_setupRoot p0 s0 = Inr s'" by blast
  then show ?thesis by (rule setupRoot_root_inv)
next
  case ResetCanvas
  with assms(2) have "Main_resetCanvas s = Inr s'" by (simp add: void_def split: sum.splits)
  from resetCanvas_result [OF this] obtain s0 p0 where "Main_setupRoot p0 s0 = Inr s'" by blast
  then show ?thesis by (rule setupRoot_root_inv)
next
  case NotifyResize
  with assms(2) have "s' = s\<lparr>emitted := emitted s @ [''resize'']\<rparr>"
    by (simp add: void_def Main_notifyResize_def)
  with assms(1) show ?thesis by (simp add: Main_root_inv_def)
next
  case (CacheBuffer n b)
  with assms(2) obtain m where "s' = s\<lparr>buffers := Some m\<rparr>"
    by (auto simp: void_def Main_cacheBuffer_def split: option.splits)
  with assms(1) show ?thesis by (simp add: Main_root_inv_def)
next
  case (GetBuffer n)
  with assms(2) have "s' = s" by (auto split: sum.splits)
  with assms(1) show ?thesis by simp
next
  case (Get k)
  with assms(2) have "s' = s" by auto
  with assms(1) show ?thesis by simp
next
  case (SetAttribute k v)
  with assms(2) have "s' = s \<or> s' = s\<lparr>meta := v\<rparr>"
    by (auto simp: Main_setAttribute_def split: if_splits)
  with assms(1) show ?thesis by (auto simp: Main_root_inv_def)
next
  case ToJSON
  with assms(2) have "s' = s" by (auto split: sum.splits)
  with assms(1) show ?thesis by simp
next
  case Destroy
  with assms(2) have "Main_destroy s = Inr s'" by (simp add: void_def split: sum.splits)
  then have "rootComponent s' = None"
    by (auto simp: Main_destroy_def split: sum.splits option.splits)
  then show ?thesis by (simp add: Main_root_inv_def)
next
  case HandleRsrcWait
  with assms(2) have "s' = Main_handleRsrcWait s" by simp
  with assms(1) show ?thesis
    by (simp add: Main_handleRsrcWait_def root_inv_eq [OF stopAnimation_root])
next
  case HandleRsrcReady
  with assms(2) have "s' = Main_handleRsrcReady s" by simp
  with assms(1) show ?thesis
    by (simp add: Main_handleRsrcReady_def root_inv_eq [OF startAnimation_root])
next
  case RsrcWait
  with assms(2) have "s' = Main_rsrcWait s" by simp
  with assms(1) show ?thesis by (simp add: root_inv_eq [OF rsrcWait_root])
next
  case RsrcReady
  with assms(2) have "s' = Main_rsrcReady s" by simp
  with assms(1) show ?thesis by (simp add: root_inv_eq [OF rsrcReady_root])
next
  case ContextLost
  with assms(2) have "Main_contextLost s = Inr s'" by (simp add: void_def split: sum.splits)
  then have "s' = s \<or> Main_stop s = Inr s'"
    by (auto simp: Main_contextLost_def split: if_splits)
  then show ?thesis
  proof
    assume "s' = s"
    with assms(1) show ?thesis by simp
  next
    assume "Main_stop s = Inr s'"
    from root_inv_eq [OF stop_root [OF this]] assms(1) show ?thesis by simp
  qed
next
  case ContextRestored
  with assms(2) have "Main_contextRestored s = Inr s'" by (simp add: void_def split: sum.splits)
  then have "s' = s \<or> Main_resetCanvas s = Inr s'"
    by (auto simp: Main_contextRestored_def split: if_splits)
  then show ?thesis
  proof
    assume "s' = s"
    with assms(1) show ?thesis by simp
  next
    assume "Main_resetCanvas s = Inr s'"
    from resetCanvas_result [OF this] obtain s0 p0 where "Main_setupRoot p0 s0 = Inr s'" by blast
    then show ?thesis by (rule setupRoot_root_inv)
  qed
next
  case (Frame sch rid d)
  with assms(2) have "Main_drawFrame sch rid d s = Inr s'" by (simp add: void_def split: sum.splits)
  from root_inv_eq [OF drawFrame_root [OF this]] assms(1) show ?thesis by simp
qed

lemma run_root_inv:
  "Main_root_inv s \<Longrightarrow> Main_run cs s = Inr (rs, s') \<Longrightarrow> Main_root_inv s'"
proof (induction cs arbitrary: s rs)
  case Nil
  then show ?case by simp
next
  case (Cons c cs)
  from Cons.prems(2) obtain r s1 rs1 where
    c: "Main_call c s = Inr (r, s1)" and r: "Main_run cs s1 = Inr (rs1, s')"
    by (auto split: sum.splits prod.splits)
  from Cons.prems(1) c have "Main_root_inv s1" by (rule call_root_inv)
  then show ?case using r by (rule Cons.IH)
qed

lemma construct_root_inv: "Main_construct raf caf options now = Inr s \<Longrightarrow> Main_root_inv s"
  by (drule construct_result) (simp add: Main_root_inv_def rootUnknownTypes_def)

lemma constructor1_root_inv: "Main1_constructor options now = Inr s \<Longrightarrow> Main_root_inv s"
  by (auto simp: Main1_constructor_def split: if_splits dest: construct_root_inv)

subsection \<open>After construction; the resource signals\<close>

lemma example_constructed: "Main1_constructor Main_example_opts 0 = Inr Main_example"
  by (simp add: Main1_constructor_def Main_construct_def Main_initGl_def Main_setupRoot_def
        EffectList_new_def rootUnknownTypes_def Main_initResourceManager_def
        Main_example_opts_def Main_example_def)

lemma example_started: "Main_run [Start] Main_example = Inr ([Void], Main_example_running)"
  by (simp add: void_def Main_start_def Main_startAnimation_def requestFrame_def
        Main_example_def Main_example_running_def)

text \<open>
  C10 (the defect in the code). On a freshly constructed Main, of either file, \<open>buffers\<close>
  is \<open>undefined\<close>: \<open>getBuffer\<close> and \<open>cacheBuffer\<close> both throw a TypeError, where the claim
  and the method's own documentation promise \<open>undefined\<close> for a name never cached and the
  cached buffer afterwards.
\<close>

theorem Main_buffers_undefined_after_construction:
  "(case Main1_constructor Main_example_opts 0 of
      Inl e \<Rightarrow> False
    | Inr s \<Rightarrow> buffers s = None \<and> Main_getBuffer ''quad'' s = Inl TypeError \<and>
              Main_cacheBuffer ''quad'' 1 s = Inl TypeError)
   \<and> (case Main2_constructor Main_example_opts 0 of
      Inl e \<Rightarrow> False
    | Inr s \<Rightarrow> buffers s = None \<and> Main_getBuffer ''quad'' s = Inl TypeError \<and>
              Main_cacheBuffer ''quad'' 1 s = Inl TypeError)"
  by (simp add: Main1_constructor_def Main2_constructor_def Main_construct_def Main_initGl_def
        Main_setupRoot_def EffectList_new_def rootUnknownTypes_def Main_example_opts_def
        Main_getBuffer_def Main_cacheBuffer_def)

lemma stopAnimation_fields:
  "isStarted (Main_stopAnimation s) = isStarted s"
  "rsrcMan (Main_stopAnimation s) = rsrcMan s"
  "rootComponent (Main_stopAnimation s) = rootComponent s"
  "requestAnimationFrame (Main_stopAnimation s) = requestAnimationFrame s"
  by (simp_all add: Main_stopAnimation_def cancelFrame_def split: option.splits)

lemma startAnimation_fields:
  "isStarted (Main_startAnimation s) = isStarted s"
  "rsrcMan (Main_startAnimation s) = rsrcMan s"
  "rootComponent (Main_startAnimation s) = rootComponent s"
  "requestAnimationFrame (Main_startAnimation s) = requestAnimationFrame s"
  by (simp_all add: Main_startAnimation_def requestFrame_def)

lemma rsrcWait_fields:
  assumes "rsrcMan s = Some rm"
  shows "rsrcMan (Main_rsrcWait s) = Some (rm\<lparr>ready := False\<rparr>)"
        "isStarted (Main_rsrcWait s) = isStarted s"
        "rootComponent (Main_rsrcWait s) = rootComponent s"
        "requestAnimationFrame (Main_rsrcWait s) = requestAnimationFrame s"
  using assms
  by (simp_all add: Main_rsrcWait_def Main_handleRsrcWait_def stopAnimation_fields)

lemma rsrcReady_fields:
  assumes "rsrcMan s = Some rm"
  shows "rsrcMan (Main_rsrcReady s) = Some (rm\<lparr>ready := True\<rparr>)"
        "isStarted (Main_rsrcReady s) = isStarted s"
        "rootComponent (Main_rsrcReady s) = rootComponent s"
        "requestAnimationFrame (Main_rsrcReady s) = requestAnimationFrame s"
  using assms
  by (simp_all add: Main_rsrcReady_def Main_handleRsrcReady_def startAnimation_fields)

text \<open>
  C3. In every state that a Main of part_001 reaches from its constructor (by public
  calls, resource signals, context events and fired frames, in any order) and in which the
  animation is started: after a not-ready signal no frame is pending and no frame can
  fire; after the ready signal that follows, tick scheduling runs again: exactly the frame
  \<open>animReqId\<close> names is pending, and firing it draws and leaves the next frame pending.
\<close>

theorem Main_resource_gate:
  assumes "Main1_constructor options now = Inr s0" "list_all part001_call cs"
      and "Main_run cs s0 = Inr (rs, s)" "isStarted s"
  shows "isStarted (Main_rsrcWait s) \<and> \<not> Main_ready (Main_rsrcWait s) \<and>
         pendingFrames (Main_rsrcWait s) = {} \<and>
         (\<forall>sch rid d. Main_drawFrame sch rid d (Main_rsrcWait s) = Inl NotPending) \<and>
         isStarted (Main_rsrcReady (Main_rsrcWait s)) \<and>
         Main_ready (Main_rsrcReady (Main_rsrcWait s)) \<and>
         Main_ticking (Main_rsrcReady (Main_rsrcWait s)) \<and>
         (\<forall>d. \<exists>s'. Main_drawFrame (requestAnimationFrame s)
                      (the (animReqId (Main_rsrcReady (Main_rsrcWait s)))) d
                      (Main_rsrcReady (Main_rsrcWait s)) = Inr s' \<and> Main_ticking s')"
proof -
  have inv: "Main_frames_inv s"
    using constructor1_inv [OF assms(1)] assms(2,3) by (rule run_inv)
  with assms(4) obtain rm tree where live: "rsrcMan s = Some rm" "rootComponent s = Some tree"
    by (auto simp: Main_frames_inv_def)
  let ?w = "Main_rsrcWait s"
  have w: "isStarted ?w" "\<not> Main_ready ?w" "rootComponent ?w = Some tree"
          "requestAnimationFrame ?w = requestAnimationFrame s"
          "rsrcMan ?w = Some (rm\<lparr>ready := False\<rparr>)"
    using assms(4) live by (simp_all add: rsrcWait_fields Main_ready_def)
  have winv: "Main_frames_inv ?w" using inv by (rule rsrcWait_inv)
  with w(2) have wp: "pendingFrames ?w = {}" by (simp add: Main_frames_inv_def)
  let ?r = "Main_rsrcReady ?w"
  have r: "isStarted ?r" "Main_ready ?r" "rootComponent ?r = Some tree"
          "requestAnimationFrame ?r = requestAnimationFrame s"
    using w by (simp_all add: rsrcReady_fields [OF w(5)] Main_ready_def)
  have rinv: "Main_frames_inv ?r" using winv by (rule rsrcReady_inv)
  with r have t: "Main_ticking ?r" by (simp add: Main_frames_inv_def)
  have fire: "\<exists>s'. Main_drawFrame (requestAnimationFrame s) (the (animReqId ?r)) d ?r = Inr s'
                    \<and> Main_ticking s'" for d
  proof -
    from t r(4) have p: "(requestAnimationFrame s, the (animReqId ?r)) \<in> pendingFrames ?r"
      by (simp add: Main_ticking_def)
    then obtain s' where s': "Main_drawFrame (requestAnimationFrame s) (the (animReqId ?r)) d ?r = Inr s'"
      using r(3) by (auto simp: Main_drawFrame_def Let_def)
    from drawFrame_inv [OF rinv s'] have "Main_frames_inv s'" .
    moreover have "isStarted s'" "Main_ready s'"
      using s' r(1,2) p r(3)
      by (auto simp: Main_drawFrame_def Let_def Main_ready_def startAnimation_fields)
    ultimately have "Main_ticking s'" by (simp add: Main_frames_inv_def)
    with s' show ?thesis by blast
  qed
  have nofire: "\<forall>sch rid d. Main_drawFrame sch rid d ?w = Inl NotPending"
    using wp by (simp add: Main_drawFrame_def)
  from w(1,2) wp nofire r(1,2) t fire show ?thesis by blast
qed

theorem Main_resource_gate_witness:
  "Main1_constructor Main_example_opts 0 = Inr Main_example
   \<and> Main_run [Start] Main_example = Inr ([Void], Main_example_running)
   \<and> isStarted Main_example_running
   \<and> pendingFrames (Main_rsrcWait Main_example_running) = {}
   \<and> Main_ticking (Main_rsrcReady (Main_rsrcWait Main_example_running))"
proof -
  have "list_all part001_call [Start]" by simp
  moreover have "isStarted Main_example_running"
    by (simp add: Main_example_running_def Main_example_def)
  ultimately show ?thesis
    using Main_resource_gate [OF example_constructed _ example_started]
          example_constructed example_started
    by blast
qed

subsection \<open>Context loss and restore\<close>

text \<open>
  C2, as stated, fails: a started Main whose frames are being scheduled receives
  context-lost and then context-restored, and ends stopped with no frame pending.
\<close>

theorem Main_context_restore_does_not_resume:
  "Main_run [Start] Main_example = Inr ([Void], Main_example_running)
   \<and> isStarted Main_example_running \<and> Main_ready Main_example_running
   \<and> Main_ticking Main_example_running
   \<and> Main_run [ContextLost, ContextRestored] Main_example_running
        = Inr ([Void, Void], Main_example_restored)
   \<and> \<not> isStarted Main_example_restored
   \<and> pendingFrames Main_example_restored = {}
   \<and> \<not> Main_ticking Main_example_restored"
proof -
  have "Main_run [ContextLost, ContextRestored] Main_example_running
        = Inr ([Void, Void], Main_example_restored)"
    by (simp add: void_def Main_contextLost_def Main_contextRestored_def Main_stop_def
          Main_stopAnimation_def cancelFrame_def Main_resetCanvas_def Main_initGl_def
          Main_setupRoot_def EffectList_new_def rootUnknownTypes_def Main_example_running_def
          Main_example_restored_def Main_example_def)
  moreover have "isStarted Main_example_running" "Main_ready Main_example_running"
      "Main_ticking Main_example_running" "\<not> isStarted Main_example_restored"
      "pendingFrames Main_example_restored = {}" "\<not> Main_ticking Main_example_restored"
    by (simp_all add: Main_ready_def Main_ticking_def Main_example_running_def
          Main_example_restored_def Main_example_def)
  ultimately show ?thesis using example_started by blast
qed

lemma stop_live:
  assumes "rsrcMan s = Some rm"
  shows "Main_stop s =
           Inr (if isStarted s
                then (if ready rm then Main_stopAnimation (s\<lparr>isStarted := False\<rparr>)
                      else s\<lparr>isStarted := False\<rparr>)
                else s)"
  using assms by (simp add: Main_stop_def Let_def)

text \<open>
  C2, amended. For every live state a Main of part_001 reaches whose canvas yields a
  context: context-lost followed by context-restored succeeds; the root is the EffectList
  that building the serialisation of the previous root yields, the register bank is empty and a new
  rendering context was built; the animation is stopped and no frame is pending or can
  fire, whether or not it was running before the loss.
\<close>

theorem Main_context_restore_rebuilds_and_stays_stopped:
  assumes "Main1_constructor options now = Inr s0" "list_all part001_call cs"
      and "Main_run cs s0 = Inr (rs, s)"
      and "contextHandlers s" "rootComponent s = Some tree" "webgl s"
  shows "\<exists>s1 s2. Main_contextLost s = Inr s1 \<and> Main_contextRestored s1 = Inr s2 \<and>
           (\<exists>tree2. EffectList_new s2 (Component_toJSON tree) = Inr tree2 \<and>
                     rootComponent s2 = Some tree2) \<and>
           registerBank s2 = Map.empty \<and> rctx s2 = rctx s + 1 \<and>
           \<not> isStarted s2 \<and> pendingFrames s2 = {} \<and> \<not> Main_ticking s2 \<and>
           (\<forall>sch rid d. Main_drawFrame sch rid d s2 = Inl NotPending)"
proof -
  have inv: "Main_frames_inv s"
    using constructor1_inv [OF assms(1)] assms(2,3) by (rule run_inv)
  have "Main_root_inv s"
    using constructor1_root_inv [OF assms(1)] assms(3) by (rule run_root_inv)
  with assms(5) have valid: "rootUnknownTypes (componentRegistry s) (Component_toJSON tree) = []"
    by (simp add: Main_root_inv_def)
  from inv assms(5) obtain rm where rm: "rsrcMan s = Some rm"
    by (auto simp: Main_frames_inv_def)
  obtain s1 where s1: "Main_contextLost s = Inr s1"
    using assms(4) stop_live [OF rm] by (simp add: Main_contextLost_def)
  then have st: "Main_stop s = Inr s1" using assms(4) by (simp add: Main_contextLost_def)
  have f1: "\<not> isStarted s1" "rootComponent s1 = Some tree" "webgl s1" "contextHandlers s1"
           "rctx s1 = rctx s" "componentRegistry s1 = componentRegistry s"
    using st assms(4,5,6) stop_live [OF rm]
    by (auto simp: Main_stopAnimation_def cancelFrame_def split: if_splits option.splits)
  from stop_inv [OF inv st] have inv1: "Main_frames_inv s1" .
  with f1(1) have p1: "pendingFrames s1 = {}" by (simp add: Main_frames_inv_def)
  define s2 where "s2 = s1\<lparr>rctx := rctx s1 + 1, registerBank := Map.empty, bootTime := clock s1,
                          rootComponent := Some (EffectList (Component_toJSON tree))\<rparr>"
  have "Main_setupRoot (Component_toJSON tree) (s1\<lparr>rctx := rctx s1 + 1\<rparr>) = Inr s2"
    using valid f1(6) by (simp add: setupRoot_valid s2_def)
  then have s2: "Main_contextRestored s1 = Inr s2"
    using f1 by (simp add: Main_contextRestored_def Main_resetCanvas_def Main_initGl_def)
  have f2: "EffectList_new s2 (Component_toJSON tree) = Inr (EffectList (Component_toJSON tree))"
           "rootComponent s2 = Some (EffectList (Component_toJSON tree))"
           "registerBank s2 = Map.empty" "rctx s2 = rctx s + 1"
           "\<not> isStarted s2" "pendingFrames s2 = {}"
    using f1 p1 valid by (simp_all add: s2_def EffectList_new_def)
  from f2(6) have "\<not> Main_ticking s2" "\<forall>sch rid d. Main_drawFrame sch rid d s2 = Inl NotPending"
    by (simp_all add: Main_ticking_def Main_drawFrame_def)
  with s1 s2 f2 show ?thesis by blast
qed

theorem Main_context_restore_rebuilds_and_stays_stopped_witness:
  "Main1_constructor Main_example_opts 0 = Inr Main_example
   \<and> Main_run [Start] Main_example = Inr ([Void], Main_example_running)
   \<and> contextHandlers Main_example_running \<and> webgl Main_example_running
   \<and> rootComponent Main_example_running = Some (EffectList [(''id'', JStr ''root'')])
   \<and> (\<exists>s1 s2. Main_contextLost Main_example_running = Inr s1 \<and>
         Main_contextRestored s1 = Inr s2 \<and> \<not> isStarted s2 \<and> pendingFrames s2 = {})"
proof -
  have h: "list_all part001_call [Start]" "contextHandlers Main_example_running"
          "rootComponent Main_example_running = Some (EffectList [(''id'', JStr ''root'')])"
          "webgl Main_example_running"
    by (simp_all add: Main_example_running_def Main_example_def)
  from Main_context_restore_rebuilds_and_stays_stopped
         [OF example_constructed h(1) example_started h(2,3,4)]
  have "\<exists>s1 s2. Main_contextLost Main_example_running = Inr s1 \<and>
         Main_contextRestored s1 = Inr s2 \<and> \<not> isStarted s2 \<and> pendingFrames s2 = {}"
    by blast
  with example_constructed example_started h show ?thesis by blast
qed

subsection \<open>The register bank\<close>

text \<open>
  C7, as stated, fails: \<open>resetCanvas\<close> empties the register bank although no preset is
  loaded. A register written by a frame is gone after it, the root being the same.
\<close>

theorem Main_resetCanvas_resets_registers:
  "(case Main_run [Frame Window 0 (\<lambda>regs. regs(''reg01'' \<mapsto> 7))] Main_example_running of
      Inl e \<Rightarrow> False
    | Inr (rs, s) \<Rightarrow>
        registerBank s ''reg01'' = Some 7 \<and>
        (case Main_resetCanvas s of
           Inl e \<Rightarrow> False
         | Inr s' \<Rightarrow> registerBank s' ''reg01'' = None \<and> rootComponent s' = rootComponent s))"
  by (simp add: void_def Main_drawFrame_def Main_startAnimation_def requestFrame_def
        Main_resetCanvas_def Main_initGl_def Main_setupRoot_def EffectList_new_def
        rootUnknownTypes_def Main_example_running_def Main_example_def)

lemma setupRoot_order:
  assumes "Main_setupRoot p s = Inr s'"
  shows "\<exists>s2 tree. registerBank s2 = Map.empty \<and> EffectList_new s2 p = Inr tree \<and>
           s' = s2\<lparr>rootComponent := Some tree\<rparr>"
proof -
  let ?s2 = "s\<lparr>registerBank := Map.empty, bootTime := clock s\<rparr>"
  from assms have "EffectList_new ?s2 p = Inr (EffectList p)"
    by (auto simp: Main_setupRoot_def EffectList_new_def Let_def split: list.splits)
  moreover from setupRoot_result(2) [OF assms]
  have "s' = ?s2\<lparr>rootComponent := Some (EffectList p)\<rparr>" by simp
  ultimately show ?thesis by (intro exI [of _ ?s2] exI [of _ "EffectList p"]) simp
qed

lemma stop_registers: "Main_stop s = Inr s' \<Longrightarrow> registerBank s' = registerBank s"
  by (auto simp: Main_stop_def Let_def Main_stopAnimation_def cancelFrame_def
        split: if_splits option.splits)

lemma call_registers:
  assumes "Main_call c s = Inr (r, s')"
  shows "registerBank s' = registers_after c s"
proof (cases c)
  case Start
  with assms show ?thesis
    by (auto simp: void_def Main_start_def Let_def Main_startAnimation_def requestFrame_def
          split: sum.splits if_splits option.splits)
next
  case Stop
  with assms show ?thesis by (auto simp: void_def split: sum.splits dest: stop_registers)
next
  case (LoadPreset p)
  with assms have "Main_loadPreset p s = Inr s'" by (simp add: void_def split: sum.splits)
  from loadPreset_result [OF this] obtain s0 p0 where "Main_setupRoot p0 s0 = Inr s'" by blast
  from setupRoot_fields(8) [OF this] LoadPreset show ?thesis by simp
next
  case ResetCanvas
  with assms have "Main_resetCanvas s = Inr s'" by (simp add: void_def split: sum.splits)
  from resetCanvas_result [OF this] obtain s0 p0 where "Main_setupRoot p0 s0 = Inr s'" by blast
  from setupRoot_fields(8) [OF this] ResetCanvas show ?thesis by simp
next
  case NotifyResize
  with assms show ?thesis by (auto simp: void_def Main_notifyResize_def)
next
  case (CacheBuffer n b)
  with assms show ?thesis by (auto simp: void_def Main_cacheBuffer_def split: option.splits)
next
  case (GetBuffer n)
  with assms show ?thesis by (auto split: sum.splits)
next
  case (Get k)
  with assms show ?thesis by auto
next
  case (SetAttribute k v)
  with assms show ?thesis by (auto simp: Main_setAttribute_def split: if_splits)
next
  case ToJSON
  with assms show ?thesis by (auto split: sum.splits)
next
  case Destroy
  with assms show ?thesis
    by (auto simp: void_def Main_destroy_def split: sum.splits option.splits dest: stop_registers)
next
  case HandleRsrcWait
  with assms show ?thesis
    by (auto simp: Main_handleRsrcWait_def Main_stopAnimation_def cancelFrame_def split: option.splits)
next
  case HandleRsrcReady
  with assms show ?thesis
    by (auto simp: Main_handleRsrcReady_def Main_startAnimation_def requestFrame_def)
next
  case RsrcWait
  with assms show ?thesis
    by (auto simp: Main_rsrcWait_def Main_handleRsrcWait_def Main_stopAnimation_def cancelFrame_def
          split: option.splits)
next
  case RsrcReady
  with assms show ?thesis
    by (auto simp: Main_rsrcReady_def Main_handleRsrcReady_def Main_startAnimation_def
          requestFrame_def split: option.splits)
next
  case ContextLost
  with assms show ?thesis
    by (auto simp: void_def Main_contextLost_def split: sum.splits if_splits dest: stop_registers)
next
  case ContextRestored
  with assms have "Main_contextRestored s = Inr s'" by (simp add: void_def split: sum.splits)
  then have "(\<not> contextHandlers s \<and> s' = s) \<or> (contextHandlers s \<and> Main_resetCanvas s = Inr s')"
    by (auto simp: Main_contextRestored_def split: if_splits)
  then show ?thesis
  proof
    assume "\<not> contextHandlers s \<and> s' = s"
    with ContextRestored show ?thesis by simp
  next
    assume h: "contextHandlers s \<and> Main_resetCanvas s = Inr s'"
    from resetCanvas_result [of s s'] h obtain s0 p0 where "Main_setupRoot p0 s0 = Inr s'"
      by blast
    from setupRoot_fields(8) [OF this] ContextRestored h show ?thesis by simp
  qed
next
  case (Frame sch rid d)
  with assms show ?thesis
    by (auto simp: void_def Main_drawFrame_def Let_def Main_startAnimation_def requestFrame_def
          split: sum.splits if_splits option.splits)
qed

text \<open>
  C7, amended. \<open>loadPreset\<close> and \<open>resetCanvas\<close> (and with it the context-restored
  handler) empty the register bank before the new tree is constructed: the constructor of
  the root receives a Main whose bank is empty. No other call changes the bank, except that
  a fired frame leaves what drawing the tree made of it; so registers persist across the
  frames of a preset until one of these calls.
\<close>

theorem Main_register_bank_resets:
  "(Main_loadPreset p s = Inr s1 \<longrightarrow>
      registerBank s1 = Map.empty \<and>
      (\<exists>s0 tree. registerBank s0 = Map.empty \<and>
            EffectList_new s0 (assign ''id'' (JStr ''root'') p) = Inr tree \<and>
            s1 = s0\<lparr>rootComponent := Some tree\<rparr>))
   \<and> (Main_resetCanvas s = Inr s2 \<longrightarrow>
      registerBank s2 = Map.empty \<and>
      (\<exists>s0 preset tree. registerBank s0 = Map.empty \<and>
            EffectList_new s0 preset = Inr tree \<and>
            s2 = s0\<lparr>rootComponent := Some tree\<rparr>))
   \<and> (Main_call c s = Inr (r, s3) \<longrightarrow> registerBank s3 = registers_after c s)"
proof (intro conjI impI)
  assume a: "Main_loadPreset p s = Inr s1"
  from loadPreset_result [OF a] obtain s' where
    e: "Main_setupRoot (assign ''id'' (JStr ''root'') p) s' = Inr s1" by blast
  then show "registerBank s1 = Map.empty" by (simp add: setupRoot_fields [OF e])
  from setupRoot_order [OF e]
  show "\<exists>s0 tree. registerBank s0 = Map.empty \<and>
            EffectList_new s0 (assign ''id'' (JStr ''root'') p) = Inr tree \<and>
            s1 = s0\<lparr>rootComponent := Some tree\<rparr>" .
next
  assume a: "Main_resetCanvas s = Inr s2"
  from resetCanvas_result [OF a] obtain s' preset where
    e: "Main_setupRoot preset s' = Inr s2" by blast
  then show "registerBank s2 = Map.empty" by (simp add: setupRoot_fields [OF e])
  from setupRoot_order [OF e]
  show "\<exists>s0 preset tree. registerBank s0 = Map.empty \<and>
            EffectList_new s0 preset = Inr tree \<and>
            s2 = s0\<lparr>rootComponent := Some tree\<rparr>"
    by blast
next
  assume "Main_call c s = Inr (r, s3)"
  then show "registerBank s3 = registers_after c s" by (rule call_registers)
qed

theorem Main_register_bank_resets_witness:
  "Main_call (Frame Window 0 (\<lambda>regs. regs(''reg01'' \<mapsto> 7))) Main_example_running
     = Inr (Void, Main_example_running\<lparr>registerBank := [''reg01'' \<mapsto> 7], animReqId := Some 1,
              pendingFrames := {(Window, 1)}, nextFrameId := 2\<rparr>)
   \<and> registerBank (Main_example_running\<lparr>registerBank := [''reg01'' \<mapsto> 7], animReqId := Some 1,
              pendingFrames := {(Window, 1)}, nextFrameId := 2\<rparr>)
       = registers_after (Frame Window 0 (\<lambda>regs. regs(''reg01'' \<mapsto> 7))) Main_example_running
   \<and> (\<exists>s1. Main_loadPreset [(''clearFrame'', JBool True)] Main_example_running = Inr s1
          \<and> registerBank s1 = Map.empty)
   \<and> (\<exists>s2. Main_resetCanvas Main_example_running = Inr s2 \<and> registerBank s2 = Map.empty)"
proof -
  let ?c = "Frame Window 0 (\<lambda>regs. regs(''reg01'' \<mapsto> 7))"
  let ?s = "Main_example_running\<lparr>registerBank := [''reg01'' \<mapsto> 7], animReqId := Some 1,
              pendingFrames := {(Window, 1)}, nextFrameId := 2\<rparr>"
  let ?p = "[(''clearFrame'', JBool True)]"
  have run: "Main_call ?c Main_example_running = Inr (Void, ?s)"
    by (simp add: void_def Main_drawFrame_def Main_startAnimation_def requestFrame_def
          Main_example_running_def Main_example_def)
  obtain s1 where s1: "Main_loadPreset ?p Main_example_running = Inr s1"
    by (simp add: Main_loadPreset_def Main_setupResources_def Main_setupRoot_def
          EffectList_new_def rootUnknownTypes_def property_def
          Main_example_running_def Main_example_def Let_def)
  obtain s2 where s2: "Main_resetCanvas Main_example_running = Inr s2"
    by (simp add: Main_resetCanvas_def Main_initGl_def Main_setupRoot_def EffectList_new_def
          rootUnknownTypes_def Main_example_running_def Main_example_def)
  from Main_register_bank_resets [of ?p Main_example_running s1 s2 ?c Void ?s] run s1 s2
  have "registerBank ?s = registers_after ?c Main_example_running"
       "registerBank s1 = Map.empty" "registerBank s2 = Map.empty"
    by blast+
  with run s1 s2 show ?thesis by blast
qed

subsection \<open>The two constructors\<close>

lemma construct_callbacks:
  "Main_construct raf caf options now = Inr s \<Longrightarrow>
   requestAnimationFrame s = raf \<and> cancelAnimationFrame s = caf"
  by (drule construct_result) simp

text \<open>
  C8, as stated, fails: with only a custom \<open>requestAnimationFrame\<close> in the options,
  part_001 selects the window's two callbacks and part_002 the custom request with the
  window's cancel. After \<open>start()\<close> and \<open>stop()\<close> the frame requested from the custom
  scheduler is still pending in part_002 and fires; part_001 has none.
\<close>

theorem Main_constructors_differ_on_single_callback:
  "(case Main1_constructor Main_example_opts_raf_only 0 of
      Inl e \<Rightarrow> False
    | Inr s1 \<Rightarrow>
       (case Main2_constructor Main_example_opts_raf_only 0 of
          Inl e \<Rightarrow> False
        | Inr s2 \<Rightarrow>
            requestAnimationFrame s1 = Window \<and> requestAnimationFrame s2 = Custom \<and>
            cancelAnimationFrame s1 = Window \<and> cancelAnimationFrame s2 = Window))
   \<and> Main1_session Main_example_opts_raf_only 0 [Start, Stop, Frame Custom 0 id] = Inl NotPending
   \<and> (case Main2_session Main_example_opts_raf_only 0 [Start, Stop, Frame Custom 0 id] of
        Inl e \<Rightarrow> False
      | Inr (rs, s) \<Rightarrow> rs = [Void, Void, Void] \<and> pendingFrames s = {(Custom, 1)})"
  by (simp add: Main1_session_def Main2_session_def Main1_constructor_def Main2_constructor_def
        Main_construct_def Main_initGl_def Main_setupRoot_def EffectList_new_def
        rootUnknownTypes_def Let_def
        Main_initResourceManager_def Main_example_opts_raf_only_def Main_example_opts_def
        void_def Main_start_def Main_stop_def Main_startAnimation_def Main_stopAnimation_def
        requestFrame_def cancelFrame_def Main_drawFrame_def)

text \<open>
  C8, amended. When the options supply both custom callbacks or neither, the two
  constructors build the same Main, and every sequence of calls gives the same results and
  the same final state in both files. In general part_001 selects the custom pair only when
  both callbacks are supplied and the window's pair otherwise, and part_002 selects each
  callback on its own.
\<close>

theorem Main_constructors_agree_on_paired_callbacks:
  "(opt_requestAnimationFrame options = opt_cancelAnimationFrame options \<longrightarrow>
      Main1_constructor options now = Main2_constructor options now \<and>
      Main1_session options now cs = Main2_session options now cs)
   \<and> (Main1_constructor options now = Inr s1 \<longrightarrow>
        requestAnimationFrame s1 = cancelAnimationFrame s1 \<and>
        requestAnimationFrame s1 =
          (if opt_requestAnimationFrame options \<and> opt_cancelAnimationFrame options
           then Custom else Window))
   \<and> (Main2_constructor options now = Inr s2 \<longrightarrow>
        requestAnimationFrame s2 = (if opt_requestAnimationFrame options then Custom else Window) \<and>
        cancelAnimationFrame s2 = (if opt_cancelAnimationFrame options then Custom else Window))"
proof (intro conjI impI)
  assume "opt_requestAnimationFrame options = opt_cancelAnimationFrame options"
  then show c: "Main1_constructor options now = Main2_constructor options now"
    by (simp add: Main1_constructor_def Main2_constructor_def)
  then show "Main1_session options now cs = Main2_session options now cs"
    by (simp add: Main1_session_def Main2_session_def)
next
  assume "Main1_constructor options now = Inr s1"
  then show "requestAnimationFrame s1 = cancelAnimationFrame s1"
    and "requestAnimationFrame s1 =
          (if opt_requestAnimationFrame options \<and> opt_cancelAnimationFrame options
           then Custom else Window)"
    by (auto simp: Main1_constructor_def split: if_splits dest: construct_callbacks)
next
  assume "Main2_constructor options now = Inr s2"
  then show "requestAnimationFrame s2 = (if opt_requestAnimationFrame options then Custom else Window)"
    and "cancelAnimationFrame s2 = (if opt_cancelAnimationFrame options then Custom else Window)"
    by (auto simp: Main2_constructor_def dest: construct_callbacks)
qed

theorem Main_constructors_agree_on_paired_callbacks_witness:
  "opt_requestAnimationFrame Main_example_opts = opt_cancelAnimationFrame Main_example_opts
   \<and> Main1_constructor Main_example_opts 0 = Inr Main_example
   \<and> Main2_constructor Main_example_opts 0 = Inr Main_example
   \<and> Main1_session Main_example_opts 0 [Start] = Inr ([Void], Main_example_running)
   \<and> Main2_session Main_example_opts 0 [Start] = Inr ([Void], Main_example_running)
   \<and> requestAnimationFrame Main_example = Window"
proof -
  have h: "opt_requestAnimationFrame Main_example_opts = opt_cancelAnimationFrame Main_example_opts"
    by (simp add: Main_example_opts_def)
  have s: "Main1_session Main_example_opts 0 [Start] = Inr ([Void], Main_example_running)"
    using example_constructed example_started by (simp add: Main1_session_def)
  from Main_constructors_agree_on_paired_callbacks
         [of Main_example_opts 0 "[Start]" Main_example Main_example] h example_constructed
  have "Main2_constructor Main_example_opts 0 = Inr Main_example"
       "Main1_session Main_example_opts 0 [Start] = Main2_session Main_example_opts 0 [Start]"
       "requestAnimationFrame Main_example = Window"
    by (simp_all add: Main_example_opts_def)
  with h s example_constructed show ?thesis by simp
qed

subsection \<open>Loading a preset and serialising it again\<close>







lemma loadPreset_unknown_type:
  "Main_loadPreset [(''components'', JArr [JObj [(''type'', JStr ''NoSuchEffect'')]])] Main_example
     = Inl (ConfigError ''NoSuchEffect'')"
  by (simp add: Main_loadPreset_def Main_setupResources_def ResourceManager_clear_def
        Main_setupRoot_def EffectList_new_def rootUnknownTypes_def
        Main_initComponentRegistry_def Main_example_def Let_def)




end
